theory Spec2Isabelle
  imports Complex_Main "HOL-Library.Sublist" "HOL-Library.Char_ord" "HOL-Library.List_Lexorder"
    "HOL-Library.Multiset"
begin

section \<open>Retrieval tool layer (agent.py)\<close>

text \<open>
  A document returned by \<^verbatim>\<open>search_documents\<close> is a dict with the keys
  \<^verbatim>\<open>document_id\<close>, \<^verbatim>\<open>title\<close>, \<^verbatim>\<open>section\<close>, \<^verbatim>\<open>text\<close> and \<^verbatim>\<open>score\<close>.
  The score is a similarity value that the tools only carry along. The field names
  carry the prefix \<open>doc_\<close>, since \<open>section\<close> and \<open>text\<close> are reserved words here.
\<close>

record document =
  doc_document_id :: string
  doc_title :: string
  doc_section :: string
  doc_text :: string
  doc_score :: real

text \<open>
  Python's \<^verbatim>\<open>needle in haystack\<close> on strings: the needle occurs as a contiguous
  block of the haystack.
\<close>

definition str_in :: "string \<Rightarrow> string \<Rightarrow> bool" where
  "str_in needle hay = sublist needle hay"

text \<open>
  The condition of the list comprehension in \<^verbatim>\<open>search_case_law\<close>:
  \<^verbatim>\<open>"BGer" in r["title"] or "Mietgericht" in r["title"]\<close>.
\<close>

definition is_court_decision :: "document \<Rightarrow> bool" where
  "is_court_decision r = (str_in ''BGer'' (doc_title r) \<or> str_in ''Mietgericht'' (doc_title r))"

text \<open>The condition in \<^verbatim>\<open>search_statutes\<close>: \<^verbatim>\<open>"OR Art" in r["title"]\<close>.\<close>

definition is_statute :: "document \<Rightarrow> bool" where
  "is_statute r = str_in ''OR Art'' (doc_title r)"

text \<open>
  Both tools await \<^verbatim>\<open>search_documents(query, limit=3)\<close>, a call to the vector
  store, and filter what it returns. The store's answer is the parameter \<open>results\<close>.
\<close>

definition search_case_law :: "document list \<Rightarrow> document list" where
  "search_case_law results = [r \<leftarrow> results. is_court_decision r]"

definition search_statutes :: "document list \<Rightarrow> document list" where
  "search_statutes results = [r \<leftarrow> results. is_statute r]"

definition raw_bger :: document where
  "raw_bger = \<lparr>doc_document_id = ''d1'', doc_title = ''BGer 1'', doc_section = ''s1'',
     doc_text = ''t1'', doc_score = 1\<rparr>"

definition raw_or :: document where
  "raw_or = \<lparr>doc_document_id = ''d2'', doc_title = ''OR Art 5'', doc_section = ''s2'',
     doc_text = ''t2'', doc_score = 0\<rparr>"

section \<open>Structured results (models.py)\<close>

text \<open>
  \<^verbatim>\<open>LegalSource\<close> and \<^verbatim>\<open>LegalResult\<close>, field by field. The field
  \<^verbatim>\<open>section\<close> is \<open>section_label\<close> here; timestamps are ISO-8601 text.
\<close>

record LegalSource =
  document_id :: string
  title :: string
  section_label :: string
  retrieved_text :: string
  relevance_score :: real
  retrieved_at :: string

record LegalResult =
  answer :: string
  sources_cited :: "LegalSource list"
  confidence :: string
  reasoning :: string

section \<open>The session and lineage store (main.py)\<close>

subsection \<open>Tables\<close>

text \<open>
  The two tables of \<^verbatim>\<open>_init_db\<close>, each a list of rows in insertion order.
  \<^verbatim>\<open>created_at\<close> is a TEXT column holding \<^verbatim>\<open>datetime.isoformat()\<close>; SQLite
  compares TEXT bytewise, which is the lexicographic order on \<open>string\<close>.
  \<^verbatim>\<open>result_json\<close> holds \<^verbatim>\<open>model_dump_json()\<close> of a \<^verbatim>\<open>LegalResult\<close> and is
  only ever read back by \<^verbatim>\<open>json.loads\<close>; the JSON codec is a library, so the column
  is modelled by the result it encodes.
\<close>

record session_row =
  s_session_id :: string
  s_created_at :: string

record query_row =
  q_query_id :: string
  q_session_id :: string
  q_user_query :: string
  q_result_json :: LegalResult
  q_messages_json :: string
  q_created_at :: string

record database =
  sessions :: "session_row list"
  queries :: "query_row list"

text \<open>The database right after \<^verbatim>\<open>_init_db\<close> on a fresh file.\<close>

definition init_db :: database where
  "init_db = \<lparr>sessions = [], queries = []\<rparr>"

text \<open>
  Both tables declare a PRIMARY KEY: \<^verbatim>\<open>session_id\<close> and \<^verbatim>\<open>query_id\<close>.
  SQLite keeps the key columns free of duplicates.
\<close>

definition primary_keys_ok :: "database \<Rightarrow> bool" where
  "primary_keys_ok db =
     (distinct (map s_session_id (sessions db)) \<and> distinct (map q_query_id (queries db)))"

datatype error = IntegrityError | AgentError

subsection \<open>The statements of \<^verbatim>\<open>post_query\<close>\<close>

text \<open>
  \<^verbatim>\<open>SELECT 1 FROM sessions WHERE session_id = ?\<close> with \<^verbatim>\<open>fetchone()\<close>:
  the first matching row, or \<^verbatim>\<open>None\<close>.
\<close>

definition select_session :: "database \<Rightarrow> string \<Rightarrow> session_row option" where
  "select_session db sid = find (\<lambda>r. s_session_id r = sid) (sessions db)"

text \<open>
  \<^verbatim>\<open>INSERT INTO sessions (session_id, created_at) VALUES (?, ?)\<close>: a plain insert.
  On a key that is already stored SQLite raises \<^verbatim>\<open>sqlite3.IntegrityError\<close> and the
  table stays as it is.
\<close>

definition insert_session :: "database \<Rightarrow> string \<Rightarrow> string \<Rightarrow> error + database" where
  "insert_session db sid now =
     (if sid \<in> set (map s_session_id (sessions db)) then Inl IntegrityError
      else Inr (db\<lparr>sessions := sessions db @ [\<lparr>s_session_id = sid, s_created_at = now\<rparr>]\<rparr>))"

text \<open>
  The block under \<^verbatim>\<open># Ensure session exists\<close>: the insert runs only when the
  select found nothing. Nothing in the block catches an exception of the insert.
\<close>

definition ensure_session :: "database \<Rightarrow> string \<Rightarrow> string \<Rightarrow> error + database" where
  "ensure_session db sid now =
     (case select_session db sid of
        None \<Rightarrow> insert_session db sid now
      | Some existing \<Rightarrow> Inr db)"

text \<open>
  \<^verbatim>\<open>SELECT ... FROM queries WHERE session_id = ? ORDER BY created_at\<close>: the rows
  of the session, sorted by creation time. Rows with equal creation time stay in
  insertion order (\<open>sort_key\<close> is stable).
\<close>

definition select_queries :: "database \<Rightarrow> string \<Rightarrow> query_row list" where
  "select_queries db sid = sort_key q_created_at [q \<leftarrow> queries db. q_session_id q = sid]"

text \<open>
  The block under \<^verbatim>\<open># Load previous message history\<close>: \<^verbatim>\<open>prev_rows[-1]\<close> of a
  non-empty result, \<^verbatim>\<open>None\<close> otherwise. The history is kept as the stored blob;
  \<^verbatim>\<open>ModelMessagesTypeAdapter.validate_json\<close> is the agent framework's parser.
\<close>

definition load_last_history :: "database \<Rightarrow> string \<Rightarrow> string option" where
  "load_last_history db sid =
     (let prev_rows = map q_messages_json (select_queries db sid)
      in if prev_rows = [] then None else Some (last prev_rows))"

text \<open>\<^verbatim>\<open>INSERT INTO queries (...) VALUES (...)\<close>, with the primary key on \<^verbatim>\<open>query_id\<close>.\<close>

definition insert_query :: "database \<Rightarrow> query_row \<Rightarrow> error + database" where
  "insert_query db row =
     (if q_query_id row \<in> set (map q_query_id (queries db)) then Inl IntegrityError
      else Inr (db\<lparr>queries := queries db @ [row]\<rparr>))"

subsection \<open>\<^verbatim>\<open>post_query\<close>\<close>

record QueryRequest =
  req_query :: string
  req_session_id :: "string option"

record LegalDeps =
  deps_session_id :: string
  deps_user_query :: string

text \<open>
  What \<^verbatim>\<open>post_query\<close> reads from the result of \<^verbatim>\<open>legal_agent.run\<close>:
  \<^verbatim>\<open>result.output\<close> and the serialised \<^verbatim>\<open>result.new_messages()\<close>.
\<close>

record run_result =
  run_output :: LegalResult
  run_new_messages_json :: string

text \<open>
  The agent is the external language model: a function of the question, the
  dependencies and the message history, which may fail.
\<close>

type_synonym agent = "string \<Rightarrow> LegalDeps \<Rightarrow> string option \<Rightarrow> error + run_result"

record query_response =
  resp_session_id :: string
  resp_query_id :: string
  resp_result :: LegalResult

text \<open>
  \<^verbatim>\<open>req.session_id or str(uuid.uuid4())\<close>: \<^verbatim>\<open>None\<close> and the empty string are
  both falsy, so both take the fresh identifier.
\<close>

definition resolve_session_id :: "string option \<Rightarrow> string \<Rightarrow> string" where
  "resolve_session_id given fresh =
     (case given of None \<Rightarrow> fresh | Some s \<Rightarrow> if s = [] then fresh else s)"

text \<open>
  The first half of \<^verbatim>\<open>post_query\<close>, up to the call of the agent: the session
  identifier, the database after the ensure-session block and the history that is
  handed to the agent.
\<close>

definition prepare_query ::
  "string \<Rightarrow> string \<Rightarrow> QueryRequest \<Rightarrow> database \<Rightarrow> error + (string \<times> database \<times> string option)" where
  "prepare_query fresh_uuid now req db =
     (let session_id = resolve_session_id (req_session_id req) fresh_uuid
      in case ensure_session db session_id now of
           Inl e \<Rightarrow> Inl e
         | Inr db1 \<Rightarrow> Inr (session_id, db1, load_last_history db1 session_id))"

text \<open>
  \<^verbatim>\<open>post_query\<close>. The two \<^verbatim>\<open>uuid4\<close> values and the clock reading \<^verbatim>\<open>now\<close>
  come from the environment. The result is the database the call leaves behind and
  either the raised error or the response. The session insert is committed before
  the agent runs, so it survives a later failure.
\<close>

definition post_query ::
  "agent \<Rightarrow> string \<Rightarrow> string \<Rightarrow> string \<Rightarrow> QueryRequest \<Rightarrow> database
     \<Rightarrow> database \<times> (error + query_response)" where
  "post_query run fresh_uuid query_id now req db =
     (case prepare_query fresh_uuid now req db of
        Inl e \<Rightarrow> (db, Inl e)
      | Inr (session_id, db1, message_history) \<Rightarrow>
          (let deps = \<lparr>deps_session_id = session_id, deps_user_query = req_query req\<rparr>
           in case run (req_query req) deps message_history of
                Inl e \<Rightarrow> (db1, Inl e)
              | Inr result \<Rightarrow>
                  (case insert_query db1
                          \<lparr>q_query_id = query_id, q_session_id = session_id,
                           q_user_query = req_query req, q_result_json = run_output result,
                           q_messages_json = run_new_messages_json result,
                           q_created_at = now\<rparr> of
                     Inl e \<Rightarrow> (db1, Inl e)
                   | Inr db2 \<Rightarrow>
                       (db2, Inr \<lparr>resp_session_id = session_id, resp_query_id = query_id,
                                  resp_result = run_output result\<rparr>))))"

subsection \<open>\<^verbatim>\<open>post_query\<close> beside other workers\<close>

text \<open>
  Several worker processes can serve requests on one database file. Between the
  SELECT and the INSERT of the ensure-session block another worker may commit to the
  file: \<open>others\<close> is what the other workers do to the database in that interval.
  The SELECT reads the database as it was, the INSERT meets it as the others left it.
\<close>

definition ensure_session_with ::
  "(database \<Rightarrow> database) \<Rightarrow> database \<Rightarrow> string \<Rightarrow> string \<Rightarrow> error + database" where
  "ensure_session_with others db sid now =
     (case select_session db sid of
        None \<Rightarrow> insert_session (others db) sid now
      | Some existing \<Rightarrow> Inr (others db))"

text \<open>
  \<^verbatim>\<open>post_query\<close> with such an interval in its ensure-session block. An exception of
  the INSERT leaves the function at once; the file then holds what the others wrote.
\<close>

definition prepare_query_with ::
  "(database \<Rightarrow> database) \<Rightarrow> string \<Rightarrow> string \<Rightarrow> QueryRequest \<Rightarrow> database
     \<Rightarrow> error + (string \<times> database \<times> string option)" where
  "prepare_query_with others fresh_uuid now req db =
     (let session_id = resolve_session_id (req_session_id req) fresh_uuid
      in case ensure_session_with others db session_id now of
           Inl e \<Rightarrow> Inl e
         | Inr db1 \<Rightarrow> Inr (session_id, db1, load_last_history db1 session_id))"

definition post_query_with ::
  "(database \<Rightarrow> database) \<Rightarrow> agent \<Rightarrow> string \<Rightarrow> string \<Rightarrow> string \<Rightarrow> QueryRequest \<Rightarrow> database
     \<Rightarrow> database \<times> (error + query_response)" where
  "post_query_with others run fresh_uuid query_id now req db =
     (case prepare_query_with others fresh_uuid now req db of
        Inl e \<Rightarrow> (others db, Inl e)
      | Inr (session_id, db1, message_history) \<Rightarrow>
          (let deps = \<lparr>deps_session_id = session_id, deps_user_query = req_query req\<rparr>
           in case run (req_query req) deps message_history of
                Inl e \<Rightarrow> (db1, Inl e)
              | Inr result \<Rightarrow>
                  (case insert_query db1
                          \<lparr>q_query_id = query_id, q_session_id = session_id,
                           q_user_query = req_query req, q_result_json = run_output result,
                           q_messages_json = run_new_messages_json result,
                           q_created_at = now\<rparr> of
                     Inl e \<Rightarrow> (db1, Inl e)
                   | Inr db2 \<Rightarrow>
                       (db2, Inr \<lparr>resp_session_id = session_id, resp_query_id = query_id,
                                  resp_result = run_output result\<rparr>))))"

subsection \<open>\<^verbatim>\<open>get_lineage\<close>\<close>

record lineage_query =
  lq_query_id :: string
  lq_user_query :: string
  lq_answer :: string
  lq_confidence :: string
  lq_reasoning :: string
  lq_sources_cited :: "LegalSource list"
  lq_created_at :: string

record lineage =
  lin_session_id :: string
  total_queries :: nat
  unique_sources :: nat
  lin_queries :: "lineage_query list"
  all_sources :: "LegalSource list"

text \<open>
  \<^verbatim>\<open>seen_sources\<close> is a Python dict, which keeps its keys in insertion order: an
  association list that grows at the end. The inner loop stores a source only under
  a key that is not there yet.
\<close>

fun scan_sources :: "(string \<times> LegalSource) list \<Rightarrow> LegalSource list \<Rightarrow> (string \<times> LegalSource) list" where
  "scan_sources seen_sources [] = seen_sources"
| "scan_sources seen_sources (source # rest) =
     (let doc_id = document_id source
      in scan_sources
           (if map_of seen_sources doc_id = None then seen_sources @ [(doc_id, source)]
            else seen_sources) rest)"

text \<open>
  The outer loop over the rows, with both accumulators. A stored result always has
  the key \<^verbatim>\<open>sources_cited\<close>, so the default of \<^verbatim>\<open>result_data.get\<close> is not
  taken.
\<close>

fun scan_rows ::
  "(string \<times> LegalSource) list \<Rightarrow> lineage_query list \<Rightarrow> query_row list
     \<Rightarrow> (string \<times> LegalSource) list \<times> lineage_query list" where
  "scan_rows seen_sources acc [] = (seen_sources, acc)"
| "scan_rows seen_sources acc (row # rows) =
     (let result_data = q_result_json row;
          sources = sources_cited result_data
      in scan_rows (scan_sources seen_sources sources)
           (acc @ [\<lparr>lq_query_id = q_query_id row, lq_user_query = q_user_query row,
                    lq_answer = answer result_data, lq_confidence = confidence result_data,
                    lq_reasoning = reasoning result_data, lq_sources_cited = sources,
                    lq_created_at = q_created_at row\<rparr>])
           rows)"

definition get_lineage :: "database \<Rightarrow> string \<Rightarrow> lineage" where
  "get_lineage db session_id =
     (let rows = select_queries db session_id
      in if rows = [] then
           \<lparr>lin_session_id = session_id, total_queries = 0, unique_sources = 0,
            lin_queries = [], all_sources = []\<rparr>
         else
           (case scan_rows [] [] rows of
              (seen_sources, qs) \<Rightarrow>
                \<lparr>lin_session_id = session_id, total_queries = length qs,
                 unique_sources = length seen_sources, lin_queries = qs,
                 all_sources = map snd seen_sources\<rparr>))"

subsection \<open>\<^verbatim>\<open>list_sessions\<close>\<close>

record session_entry =
  ls_session_id :: string
  ls_created_at :: string
  query_count :: nat

text \<open>
  \<^verbatim>\<open>FROM sessions s LEFT JOIN queries q ON s.session_id = q.session_id\<close>: every
  session with each of its queries, and with NULL (\<open>None\<close>) when it has none.
\<close>

definition left_join :: "session_row list \<Rightarrow> query_row list \<Rightarrow> (session_row \<times> query_row option) list" where
  "left_join ss qs =
     concat (map (\<lambda>s. case [q \<leftarrow> qs. s_session_id s = q_session_id q] of
                          [] \<Rightarrow> [(s, None)]
                        | m # ms \<Rightarrow> map (\<lambda>q. (s, Some q)) (m # ms)) ss)"

text \<open>
  \<^verbatim>\<open>GROUP BY s.session_id\<close> with the columns \<^verbatim>\<open>s.session_id\<close>,
  \<^verbatim>\<open>s.created_at\<close> and \<^verbatim>\<open>COUNT(q.query_id)\<close>: one row per session identifier,
  counting the joined rows whose query is not NULL.
\<close>

function group_rows :: "(session_row \<times> query_row option) list \<Rightarrow> session_entry list" where
  "group_rows [] = []"
| "group_rows (r # rest) =
     (let k = s_session_id (fst r);
          grp = r # [x \<leftarrow> rest. s_session_id (fst x) = k]
      in \<lparr>ls_session_id = k, ls_created_at = s_created_at (fst r),
          query_count = length [x \<leftarrow> grp. snd x \<noteq> None]\<rparr>
         # group_rows [x \<leftarrow> rest. s_session_id (fst x) \<noteq> k])"
  by pat_completeness auto
termination
  by (relation "measure length") (auto simp: less_Suc_eq_le)

text \<open>
  \<^verbatim>\<open>ORDER BY ... DESC\<close>: sorted by the key, largest first; rows with equal keys
  keep the order in which they reach the sort.
\<close>

definition order_by_desc :: "('a \<Rightarrow> string) \<Rightarrow> 'a list \<Rightarrow> 'a list" where
  "order_by_desc f xs = rev (sort_key f (rev xs))"

text \<open>
  The query of \<^verbatim>\<open>list_sessions\<close>. SQLite forms the groups of
  \<^verbatim>\<open>GROUP BY s.session_id\<close> along the primary key, so they reach the sort in
  ascending order of \<^verbatim>\<open>session_id\<close>; sessions with equal creation time are
  therefore listed by \<^verbatim>\<open>session_id\<close>.
\<close>

definition list_sessions :: "database \<Rightarrow> session_entry list" where
  "list_sessions db =
     order_by_desc ls_created_at
       (sort_key ls_session_id (group_rows (left_join (sessions db) (queries db))))"

section \<open>Seeding the vector store (vectorstore.py)\<close>

definition COLLECTION_NAME :: string where
  "COLLECTION_NAME = ''legal_documents''"

definition EMBEDDING_DIM :: nat where
  "EMBEDDING_DIM = 1536"

text \<open>
  The entries of \<^verbatim>\<open>SEED_DOCUMENTS\<close>. Adjacent string literals are joined as Python
  joins them; the em dash is written as its three UTF-8 bytes.
\<close>

record seed_document =
  sd_document_id :: string
  sd_title :: string
  sd_section :: string
  sd_text :: string

definition seed_or_art_271 :: seed_document where
  "seed_or_art_271 =
     \<lparr>sd_document_id = ''or-art-271'',
      sd_title = ''OR Art. 271 ''
        @ [CHR 0xE2, CHR 0x80, CHR 0x94]
        @ '' Protection Against Termination'',
      sd_section = ''Art. 271 OR (Code of Obligations)'',
      sd_text =
        ''A termination of a residential or commercial lease may be contested ''
        @ ''if it contravenes the principle of good faith. In particular, a ''
        @ ''termination is contestable if given because the tenant asserts claims ''
        @ ''arising from the lease in good faith, because the tenant is affiliated ''
        @ ''with an organisation that represents the interests of tenants, or ''
        @ ''during proceedings related to the lease. The burden of proof for ''
        @ ''retaliatory motive rests with the tenant.''\<rparr>"

definition seed_or_art_271a :: seed_document where
  "seed_or_art_271a =
     \<lparr>sd_document_id = ''or-art-271a'',
      sd_title = ''OR Art. 271a ''
        @ [CHR 0xE2, CHR 0x80, CHR 0x94]
        @ '' Annulment of Termination'',
      sd_section = ''Art. 271a OR (Code of Obligations)'',
      sd_text =
        ''A termination by the landlord is annullable if given during or within ''
        @ ''three years after the conclusion of conciliation or court proceedings ''
        @ ''related to the tenancy, unless the proceedings were initiated in a ''
        @ ''frivolous manner. A termination is also annullable if given in ''
        @ ''retaliation for the tenant exercising rights under the lease, such as ''
        @ ''demanding repairs or reporting defects to the authorities. The ''
        @ ''three-year protection period begins from the date of final judgment.''\<rparr>"

definition seed_or_art_259a :: seed_document where
  "seed_or_art_259a =
     \<lparr>sd_document_id = ''or-art-259a'',
      sd_title = ''OR Art. 259a ''
        @ [CHR 0xE2, CHR 0x80, CHR 0x94]
        @ '' Tenant Remedies for Defects'',
      sd_section = ''Art. 259a OR (Code of Obligations)'',
      sd_text =
        ''If a defect arises during the tenancy that the tenant is not obliged ''
        @ ''to remedy and that cannot be attributed to the tenant, the tenant may ''
        @ ''demand that the landlord remedy the defect, reduce the rent in ''
        @ ''proportion to the defect, or claim damages. For minor defects, the ''
        @ ''tenant must notify the landlord and allow reasonable time for repair. ''
        @ ''For serious defects affecting habitability, the tenant may deposit ''
        @ ''rent with the authorities and seek immediate remediation.''\<rparr>"

definition seed_bger_4a_123_2024 :: seed_document where
  "seed_bger_4a_123_2024 =
     \<lparr>sd_document_id = ''bger-4a-123-2024'',
      sd_title = ''BGer 4A_123/2024 ''
        @ [CHR 0xE2, CHR 0x80, CHR 0x94]
        @ '' Federal Supreme Court'',
      sd_section = ''Judgment of 15 March 2024'',
      sd_text =
        ''The Federal Supreme Court held that a termination notice served ''
        @ ''within six months of the tenant filing a complaint about mould and ''
        @ ''structural dampness was retaliatory within the meaning of Art. 271a ''
        @ ''OR. The landlord failed to demonstrate a legitimate economic interest ''
        @ ''independent of the complaint. The court emphasised that temporal ''
        @ ''proximity between a tenant's assertion of rights and a subsequent ''
        @ ''termination creates a strong presumption of retaliation that the ''
        @ ''landlord must rebut with concrete evidence.''\<rparr>"

definition seed_bger_4a_456_2023 :: seed_document where
  "seed_bger_4a_456_2023 =
     \<lparr>sd_document_id = ''bger-4a-456-2023'',
      sd_title = ''BGer 4A_456/2023 ''
        @ [CHR 0xE2, CHR 0x80, CHR 0x94]
        @ '' Federal Supreme Court'',
      sd_section = ''Judgment of 22 November 2023'',
      sd_text =
        ''In this case the Federal Supreme Court examined whether a planned ''
        @ ''comprehensive renovation constituted a valid ground for termination ''
        @ ''under Art. 271 OR. The court ruled that renovation alone does not ''
        @ ''justify termination unless the landlord proves that continued ''
        @ ''occupancy would render the renovation substantially more expensive ''
        @ ''or technically impossible. Mere inconvenience to the construction ''
        @ ''schedule is insufficient. The tenant's long occupancy of 18 years ''
        @ ''was a factor weighing against termination.''\<rparr>"

definition seed_zh_mietgericht_2024_31 :: seed_document where
  "seed_zh_mietgericht_2024_31 =
     \<lparr>sd_document_id = ''zh-mietgericht-2024-31'',
      sd_title = ''ZH Mietgericht 2024/31 ''
        @ [CHR 0xE2, CHR 0x80, CHR 0x94]
        @ '' Zurich Rental Court'',
      sd_section = ''Decision of 8 July 2024'',
      sd_text =
        ''The Zurich Rental Court granted the tenant's petition to annul a ''
        @ ''termination notice issued after the tenant reported persistent water ''
        @ ''ingress and requested a rent reduction. The court found that the ''
        @ ''landlord's stated reason ''
        @ [CHR 0xE2, CHR 0x80, CHR 0x94]
        @ '' personal use by a family member ''
        @ [CHR 0xE2, CHR 0x80, CHR 0x94]
        @ '' was ''
        @ ''pretextual, as no concrete plans for personal use were presented. ''
        @ ''The court awarded the tenant an extension of the lease by two years ''
        @ ''and ordered the landlord to remedy the reported defects within 90 ''
        @ ''days.''\<rparr>"

definition SEED_DOCUMENTS :: "seed_document list" where
  "SEED_DOCUMENTS =
     [seed_or_art_271,
      seed_or_art_271a,
      seed_or_art_259a,
      seed_bger_4a_123_2024,
      seed_bger_4a_456_2023,
      seed_zh_mietgericht_2024_31]"

subsection \<open>The Qdrant client\<close>

datatype Distance = COSINE | EUCLID | DOT | MANHATTAN

record VectorParams =
  vp_size :: nat
  vp_distance :: Distance

record payload =
  p_document_id :: string
  p_title :: string
  p_section :: string
  p_text :: string

record PointStruct =
  point_id :: nat
  point_vector :: "real list"
  point_payload :: payload

record collection =
  vectors_config :: VectorParams
  points :: "nat \<rightharpoonup> PointStruct"

text \<open>
  The store behind the client: its collections by name. The four client calls of
  \<^verbatim>\<open>seed_collection\<close> act on it. Creating a collection under a name that is taken
  is refused, and so is an upsert into a collection that does not exist or of a point
  whose vector has not the size of the collection. An upsert stores each point under
  its id, replacing a point that has the id. The embedding provider is a remote call
  that can fail.
\<close>

type_synonym qdrant = "string \<rightharpoonup> collection"

datatype seed_error = Conflict | NotFound | WrongVectorSize | EmbeddingFailed

text \<open>
  Under cosine distance the store keeps a vector scaled to length one, and a vector of
  length zero as it is. The store computes in floating point; the model uses the real
  numbers.
\<close>

definition cosine_preprocess :: "real list \<Rightarrow> real list" where
  "cosine_preprocess v =
     (let n = sqrt (sum_list (map (\<lambda>x. x * x) v))
      in if n = 0 then v else map (\<lambda>x. x / n) v)"

definition stored_vector :: "Distance \<Rightarrow> real list \<Rightarrow> real list" where
  "stored_vector d v = (if d = COSINE then cosine_preprocess v else v)"

definition collection_exists :: "qdrant \<Rightarrow> string \<Rightarrow> bool" where
  "collection_exists client name = (client name \<noteq> None)"

definition delete_collection :: "qdrant \<Rightarrow> string \<Rightarrow> qdrant" where
  "delete_collection client name = client(name := None)"

definition create_collection :: "qdrant \<Rightarrow> string \<Rightarrow> VectorParams \<Rightarrow> seed_error + qdrant" where
  "create_collection client name cfg =
     (if client name \<noteq> None then Inl Conflict
      else Inr (client(name \<mapsto> \<lparr>vectors_config = cfg, points = Map.empty\<rparr>)))"

fun upsert_points ::
  "Distance \<Rightarrow> (nat \<rightharpoonup> PointStruct) \<Rightarrow> PointStruct list \<Rightarrow> (nat \<rightharpoonup> PointStruct)" where
  "upsert_points d m [] = m"
| "upsert_points d m (p # ps) =
     upsert_points d (m(point_id p \<mapsto> p\<lparr>point_vector := stored_vector d (point_vector p)\<rparr>)) ps"

definition upsert :: "qdrant \<Rightarrow> string \<Rightarrow> PointStruct list \<Rightarrow> seed_error + qdrant" where
  "upsert client name ps =
     (case client name of
        None \<Rightarrow> Inl NotFound
      | Some c \<Rightarrow>
          if list_all (\<lambda>p. length (point_vector p) = vp_size (vectors_config c)) ps
          then Inr (client(name \<mapsto>
                 c\<lparr>points := upsert_points (vp_distance (vectors_config c)) (points c) ps\<rparr>))
          else Inl WrongVectorSize)"

subsection \<open>\<^verbatim>\<open>seed_collection\<close>\<close>

text \<open>
  The loop \<^verbatim>\<open>for i, doc in enumerate(SEED_DOCUMENTS)\<close>, with the counter \<open>i\<close> and
  the list \<open>points\<close> it appends to. \<^verbatim>\<open>get_embedding\<close> calls the embedding
  provider; it is a parameter, and an exception of it ends the loop and the function.
\<close>

fun embed_documents ::
  "(string \<Rightarrow> seed_error + real list) \<Rightarrow> nat \<Rightarrow> PointStruct list \<Rightarrow> seed_document list
     \<Rightarrow> seed_error + PointStruct list" where
  "embed_documents get_embedding i pts [] = Inr pts"
| "embed_documents get_embedding i pts (doc # docs) =
     (case get_embedding (sd_text doc) of
        Inl e \<Rightarrow> Inl e
      | Inr embedding \<Rightarrow>
          embed_documents get_embedding (Suc i)
            (pts @ [\<lparr>point_id = i, point_vector = embedding,
                      point_payload =
                        \<lparr>p_document_id = sd_document_id doc, p_title = sd_title doc,
                         p_section = sd_section doc, p_text = sd_text doc\<rparr>\<rparr>])
            docs)"

text \<open>
  \<^verbatim>\<open>seed_collection\<close>. The collection is deleted and created before the documents
  are embedded. The result is the store after a run without exception, or the
  exception; what the store holds after an exception is not part of the result.
\<close>

definition seed_collection ::
  "(string \<Rightarrow> seed_error + real list) \<Rightarrow> qdrant \<Rightarrow> seed_error + qdrant" where
  "seed_collection get_embedding client =
     (let client1 = (if collection_exists client COLLECTION_NAME
                     then delete_collection client COLLECTION_NAME else client)
      in case create_collection client1 COLLECTION_NAME
                \<lparr>vp_size = EMBEDDING_DIM, vp_distance = COSINE\<rparr> of
           Inl e \<Rightarrow> Inl e
         | Inr client2 \<Rightarrow>
             (case embed_documents get_embedding 0 [] SEED_DOCUMENTS of
                Inl e \<Rightarrow> Inl e
              | Inr pts \<Rightarrow> upsert client2 COLLECTION_NAME pts))"

section \<open>Reference notions and example data\<close>

text \<open>
  The citations of a list of query rows, one row after the other, each row's
  \<^verbatim>\<open>sources_cited\<close> in its own order.
\<close>

definition cited :: "query_row list \<Rightarrow> LegalSource list" where
  "cited rows = concat (map (\<lambda>row. sources_cited (q_result_json row)) rows)"

text \<open>
  De-duplication as the specification words it: walking through the sources, a source
  is kept when its document identifier is neither among \<open>ks\<close> nor carried by a source
  kept before it.
\<close>

fun fresh_sources :: "string list \<Rightarrow> LegalSource list \<Rightarrow> LegalSource list" where
  "fresh_sources ks [] = []"
| "fresh_sources ks (s # ss) =
     (if document_id s \<in> set ks then fresh_sources ks ss
      else s # fresh_sources (ks @ [document_id s]) ss)"

text \<open>The position of the first occurrence of an identifier in a list of identifiers.\<close>

definition first_pos :: "string list \<Rightarrow> string \<Rightarrow> nat" where
  "first_pos ids d = length (takeWhile (\<lambda>x. x \<noteq> d) ids)"

text \<open>Example data: the citations A, B, A, C over two queries of one session.\<close>

definition src_A_first :: LegalSource where
  "src_A_first = \<lparr>document_id = ''or-art-271'', title = ''OR Art. 271'',
     section_label = ''Art. 271 OR'', retrieved_text = ''first retrieval'',
     relevance_score = 0.9, retrieved_at = ''2025-01-01T10:00:01+00:00''\<rparr>"

definition src_B :: LegalSource where
  "src_B = \<lparr>document_id = ''bger-4a-123-2024'', title = ''BGer 4A_123/2024'',
     section_label = ''Judgment of 15 March 2024'', retrieved_text = ''mould'',
     relevance_score = 0.8, retrieved_at = ''2025-01-01T10:00:02+00:00''\<rparr>"

definition src_A_second :: LegalSource where
  "src_A_second = \<lparr>document_id = ''or-art-271'', title = ''OR Art. 271'',
     section_label = ''Art. 271 OR'', retrieved_text = ''second retrieval'',
     relevance_score = 0.7, retrieved_at = ''2025-01-01T11:00:01+00:00''\<rparr>"

definition src_C :: LegalSource where
  "src_C = \<lparr>document_id = ''zh-mietgericht-2024-31'', title = ''ZH Mietgericht 2024/31'',
     section_label = ''Decision of 8 July 2024'', retrieved_text = ''water ingress'',
     relevance_score = 0.6, retrieved_at = ''2025-01-01T11:00:02+00:00''\<rparr>"

definition row_early :: query_row where
  "row_early = \<lparr>q_query_id = ''q-early'', q_session_id = ''s1'', q_user_query = ''first question'',
     q_result_json = \<lparr>answer = ''a1'', sources_cited = [src_A_first, src_B],
                      confidence = ''high'', reasoning = ''r1''\<rparr>,
     q_messages_json = ''m-early'', q_created_at = ''2025-01-01T10:00:00+00:00''\<rparr>"

definition row_late :: query_row where
  "row_late = \<lparr>q_query_id = ''q-late'', q_session_id = ''s1'', q_user_query = ''second question'',
     q_result_json = \<lparr>answer = ''a2'', sources_cited = [src_A_second, src_C],
                      confidence = ''medium'', reasoning = ''r2''\<rparr>,
     q_messages_json = ''m-late'', q_created_at = ''2025-01-01T11:00:00+00:00''\<rparr>"

text \<open>
  Two sessions; the second has no query. The later query of the first session was
  written to the table before the earlier one.
\<close>

definition ex_db :: database where
  "ex_db = \<lparr>sessions = [\<lparr>s_session_id = ''s1'', s_created_at = ''2025-01-01T10:00:00+00:00''\<rparr>,
                        \<lparr>s_session_id = ''s2'', s_created_at = ''2025-01-01T12:00:00+00:00''\<rparr>],
            queries = [row_late, row_early]\<rparr>"

definition db_one :: database where
  "db_one = \<lparr>sessions = [\<lparr>s_session_id = ''s1'', s_created_at = ''2025-01-01T10:00:00+00:00''\<rparr>],
             queries = []\<rparr>"

text \<open>
  The database after the first of two requests that race on the new session
  \<^verbatim>\<open>s1\<close> has inserted its session row.
\<close>

definition db_race :: database where
  "db_race = \<lparr>sessions = [\<lparr>s_session_id = ''s1'', s_created_at = ''2025-01-01T10:00:00.000001+00:00''\<rparr>],
             queries = []\<rparr>"

text \<open>
  The other of two first queries on the new session \<^verbatim>\<open>s1\<close>: its ensure-session
  block, run to its commit.
\<close>

definition other_first_query :: "database \<Rightarrow> database" where
  "other_first_query db =
     (case ensure_session db ''s1'' ''2025-01-01T10:00:00.000001+00:00'' of
        Inl e \<Rightarrow> db
      | Inr db1 \<Rightarrow> db1)"

text \<open>
  An agent for the examples: it answers every question and returns the messages of
  the run as a text that names the question.
\<close>

definition echo_agent :: agent where
  "echo_agent q deps history =
     Inr \<lparr>run_output = \<lparr>answer = ''answer to '' @ q, sources_cited = [],
                         confidence = ''low'', reasoning = ''none''\<rparr>,
          run_new_messages_json = ''messages of '' @ q\<rparr>"

text \<open>Example databases for the history of a session.\<close>

definition db_late :: database where
  "db_late = \<lparr>sessions = [\<lparr>s_session_id = ''s1'', s_created_at = ''2025-01-01T10:00:00+00:00''\<rparr>],
              queries = [row_late]\<rparr>"

definition row_third :: "string \<Rightarrow> string \<Rightarrow> query_row" where
  "row_third sid now = \<lparr>q_query_id = ''uuid-2'', q_session_id = sid,
     q_user_query = ''third question'',
     q_result_json = \<lparr>answer = ''answer to third question'', sources_cited = [],
                      confidence = ''low'', reasoning = ''none''\<rparr>,
     q_messages_json = ''messages of third question'', q_created_at = now\<rparr>"

definition resp_third :: "string \<Rightarrow> query_response" where
  "resp_third sid = \<lparr>resp_session_id = sid, resp_query_id = ''uuid-2'',
     resp_result = \<lparr>answer = ''answer to third question'', sources_cited = [],
                    confidence = ''low'', reasoning = ''none''\<rparr>\<rparr>"

definition db_anon :: database where
  "db_anon = \<lparr>sessions = [\<lparr>s_session_id = ''uuid-1'', s_created_at = ''2025-01-01T12:00:00+00:00''\<rparr>],
              queries = [row_third ''uuid-1'' ''2025-01-01T12:00:00+00:00'']\<rparr>"

definition db_stale :: database where
  "db_stale = db_late\<lparr>queries := [row_late, row_third ''s1'' ''2025-01-01T10:30:00+00:00'']\<rparr>"

definition db_cont :: database where
  "db_cont = db_late\<lparr>queries := [row_late, row_third ''s1'' ''2025-01-01T12:00:00+00:00'']\<rparr>"

text \<open>
  The entry the session list is to hold for a session: its identifier, its creation
  time and the number of stored queries that carry its identifier.
\<close>

definition session_entry_of :: "query_row list \<Rightarrow> session_row \<Rightarrow> session_entry" where
  "session_entry_of qs s =
     \<lparr>ls_session_id = s_session_id s, ls_created_at = s_created_at s,
      query_count = length [q \<leftarrow> qs. q_session_id q = s_session_id s]\<rparr>"

text \<open>
  The point handed to the store for the document at position \<open>i\<close> of the corpus: the
  position as identifier, the vector, and the four fields of the document as payload.
\<close>

definition seed_point :: "real list \<Rightarrow> nat \<Rightarrow> seed_document \<Rightarrow> PointStruct" where
  "seed_point v i doc =
     \<lparr>point_id = i, point_vector = v,
      point_payload =
        \<lparr>p_document_id = sd_document_id doc, p_title = sd_title doc,
         p_section = sd_section doc, p_text = sd_text doc\<rparr>\<rparr>"

text \<open>A store that already holds a collection of the name, with other parameters and a stale point.\<close>

definition stale_client :: qdrant where
  "stale_client =
     [''legal_documents'' \<mapsto>
        \<lparr>vectors_config = \<lparr>vp_size = 3, vp_distance = EUCLID\<rparr>,
         points = [7 \<mapsto> \<lparr>point_id = 7, point_vector = [1, 2, 3],
                            point_payload = \<lparr>p_document_id = ''old'', p_title = ''old title'',
                                             p_section = ''old section'', p_text = ''old text''\<rparr>\<rparr>]\<rparr>,
      ''other'' \<mapsto> \<lparr>vectors_config = \<lparr>vp_size = 2, vp_distance = DOT\<rparr>, points = Map.empty\<rparr>]"

text \<open>
  A provider for the examples: every text gets the vector (3, 4, 0, ..., 0) of 1536
  components, whose length is 5.
\<close>

definition example_embedding :: "string \<Rightarrow> seed_error + real list" where
  "example_embedding t = Inr (3 # 4 # replicate 1534 0)"

text \<open>Three sessions with one creation time, stored in the order b, a, c.\<close>

definition db_ties :: database where
  "db_ties =
     \<lparr>sessions = [\<lparr>s_session_id = ''b'', s_created_at = ''2025-01-01T10:00:00+00:00''\<rparr>,
                  \<lparr>s_session_id = ''a'', s_created_at = ''2025-01-01T10:00:00+00:00''\<rparr>,
                  \<lparr>s_session_id = ''c'', s_created_at = ''2025-01-01T10:00:00+00:00''\<rparr>],
      queries = []\<rparr>"

section \<open>Properties of the retrieval tools\<close>

lemma str_in_iff: "str_in needle hay \<longleftrightarrow> (\<exists>ps ss. hay = ps @ needle @ ss)"
  by (simp add: str_in_def sublist_def)

lemma is_court_decision_raw [simp]: "is_court_decision raw_bger" "\<not> is_court_decision raw_or"
  by (simp_all add: is_court_decision_def raw_bger_def raw_or_def str_in_def sublist_code(3))

lemma is_statute_raw [simp]: "is_statute raw_or" "\<not> is_statute raw_bger"
  by (simp_all add: is_statute_def raw_bger_def raw_or_def str_in_def sublist_code(3))

text \<open>
  Claim C6. Case-law search keeps exactly the retrieved results whose title contains
  \<^verbatim>\<open>BGer\<close> or \<^verbatim>\<open>Mietgericht\<close>, statute search exactly those whose title contains
  \<^verbatim>\<open>OR Art\<close>, both in the order of retrieval. On the raw results with the titles
  \<^verbatim>\<open>BGer 1\<close> and \<^verbatim>\<open>OR Art 5\<close>, case-law search returns only the first and
  statute search only the second.
\<close>

theorem search_filters_keep_exactly_the_marked:
  "(r \<in> set (search_case_law results) \<longleftrightarrow>
      r \<in> set results \<and>
      (\<exists>ps ss. doc_title r = ps @ ''BGer'' @ ss \<or> doc_title r = ps @ ''Mietgericht'' @ ss))
   \<and> (r \<in> set (search_statutes results) \<longleftrightarrow>
      r \<in> set results \<and> (\<exists>ps ss. doc_title r = ps @ ''OR Art'' @ ss))
   \<and> subseq (search_case_law results) results
   \<and> subseq (search_statutes results) results
   \<and> count_list (search_case_law results) r
        = (if is_court_decision r then count_list results r else 0)
   \<and> count_list (search_statutes results) r
        = (if is_statute r then count_list results r else 0)
   \<and> search_case_law [raw_bger, raw_or] = [raw_bger]
   \<and> search_statutes [raw_bger, raw_or] = [raw_or]"
proof -
  have count_filter: "count_list (filter P xs) r = (if P r then count_list xs r else 0)"
    for P and xs :: "document list"
    by (induction xs) auto
  have "r \<in> set (search_case_law results) \<longleftrightarrow>
      r \<in> set results \<and>
      (\<exists>ps ss. doc_title r = ps @ ''BGer'' @ ss \<or> doc_title r = ps @ ''Mietgericht'' @ ss)"
    unfolding search_case_law_def is_court_decision_def str_in_iff by auto
  moreover have "r \<in> set (search_statutes results) \<longleftrightarrow>
      r \<in> set results \<and> (\<exists>ps ss. doc_title r = ps @ ''OR Art'' @ ss)"
    unfolding search_statutes_def is_statute_def str_in_iff by auto
  moreover have "subseq (search_case_law results) results"
    "subseq (search_statutes results) results"
    by (simp_all add: search_case_law_def search_statutes_def)
  moreover have "count_list (search_case_law results) r
        = (if is_court_decision r then count_list results r else 0)"
    "count_list (search_statutes results) r
        = (if is_statute r then count_list results r else 0)"
    by (simp_all add: search_case_law_def search_statutes_def count_filter)
  moreover have "search_case_law [raw_bger, raw_or] = [raw_bger]"
    "search_statutes [raw_bger, raw_or] = [raw_or]"
    by (simp_all add: search_case_law_def search_statutes_def)
  ultimately show ?thesis by blast
qed

theorem search_filters_witness:
  "raw_or \<notin> set (search_case_law [raw_bger, raw_or])
   \<and> raw_bger \<notin> set (search_statutes [raw_bger, raw_or])
   \<and> count_list (search_case_law [raw_bger, raw_or, raw_bger]) raw_bger = 2"
proof -
  have ne: "raw_bger \<noteq> raw_or"
    by (simp add: raw_bger_def raw_or_def)
  have a: "raw_or \<notin> set (search_case_law [raw_bger, raw_or])"
    using search_filters_keep_exactly_the_marked [of raw_or "[raw_bger, raw_or]"] ne
    by simp
  have b: "raw_bger \<notin> set (search_statutes [raw_bger, raw_or])"
    using search_filters_keep_exactly_the_marked [of raw_bger "[raw_bger, raw_or]"] ne
    by simp
  have c: "count_list (search_case_law [raw_bger, raw_or, raw_bger]) raw_bger = 2"
    using search_filters_keep_exactly_the_marked [of raw_bger "[raw_bger, raw_or, raw_bger]"] ne
    by simp
  from a b c show ?thesis by simp
qed

text \<open>
  Claim C7. When the filter removes every candidate, the search returns the empty
  list: case-law search returns it exactly when no retrieved title marks a court
  decision, statute search exactly when none marks a statute. Both tools are total
  on every result list, the empty one included.
\<close>

theorem search_returns_empty_when_all_filtered:
  "(search_case_law results = [] \<longleftrightarrow> (\<forall>r \<in> set results. \<not> is_court_decision r))
   \<and> (search_statutes results = [] \<longleftrightarrow> (\<forall>r \<in> set results. \<not> is_statute r))
   \<and> search_case_law [] = [] \<and> search_statutes [] = []"
  by (simp add: search_case_law_def search_statutes_def filter_empty_conv)

theorem search_returns_empty_witness:
  "\<not> is_court_decision raw_or
   \<and> search_case_law [raw_or, raw_or] = []
   \<and> \<not> is_statute raw_bger
   \<and> search_statutes [raw_bger] = []"
proof -
  have h1: "\<forall>r \<in> set [raw_or, raw_or]. \<not> is_court_decision r" by simp
  have h2: "\<forall>r \<in> set [raw_bger]. \<not> is_statute r" by simp
  from h1 have "search_case_law [raw_or, raw_or] = []"
    using search_returns_empty_when_all_filtered [of "[raw_or, raw_or]"] by blast
  moreover from h2 have "search_statutes [raw_bger] = []"
    using search_returns_empty_when_all_filtered [of "[raw_bger]"] by blast
  ultimately show ?thesis by simp
qed

section \<open>Properties of the session table\<close>

lemma select_session_None: "select_session db sid = None \<longleftrightarrow> sid \<notin> set (map s_session_id (sessions db))"
  by (auto simp: select_session_def find_None_iff)

lemma ensure_session_present:
  "sid \<in> set (map s_session_id (sessions db)) \<Longrightarrow> ensure_session db sid now = Inr db"
  using select_session_None [of db sid] by (auto simp: ensure_session_def split: option.splits)

lemma ensure_session_absent:
  "sid \<notin> set (map s_session_id (sessions db)) \<Longrightarrow>
   ensure_session db sid now =
     Inr (db\<lparr>sessions := sessions db @ [\<lparr>s_session_id = sid, s_created_at = now\<rparr>]\<rparr>)"
  using select_session_None [of db sid] by (simp add: ensure_session_def insert_session_def)

lemma count_distinct_member:
  "distinct (map f xs) \<Longrightarrow> k \<in> set (map f xs) \<Longrightarrow> length [x \<leftarrow> xs. f x = k] = 1"
  by (induction xs) (auto simp: filter_empty_conv image_iff)

lemma count_absent: "k \<notin> set (map f xs) \<Longrightarrow> [x \<leftarrow> xs. f x = k] = []"
  by (auto simp: filter_empty_conv)

text \<open>
  Claim C3. The ensure-session step is idempotent. On a database that respects its
  primary keys the step succeeds; running it again with the same identifier changes
  nothing; exactly one session row carries the identifier afterwards; and the step
  inserts a row (with the current time) only when the identifier is absent, leaving
  the database, and so the stored row with its creation time, as it is otherwise.
\<close>

theorem ensure_session_idempotent:
  assumes "primary_keys_ok db"
  shows "\<exists>db1. ensure_session db sid now = Inr db1
           \<and> ensure_session db1 sid now' = Inr db1
           \<and> length [r \<leftarrow> sessions db1. s_session_id r = sid] = 1
           \<and> primary_keys_ok db1
           \<and> queries db1 = queries db
           \<and> db1 = (if sid \<in> set (map s_session_id (sessions db)) then db
                    else db\<lparr>sessions := sessions db @ [\<lparr>s_session_id = sid, s_created_at = now\<rparr>]\<rparr>)"
proof (cases "sid \<in> set (map s_session_id (sessions db))")
  case True
  with assms have "length [r \<leftarrow> sessions db. s_session_id r = sid] = 1"
    by (simp add: primary_keys_ok_def count_distinct_member)
  with True assms show ?thesis
    by (simp add: ensure_session_present)
next
  case False
  define db1 where "db1 = db\<lparr>sessions := sessions db @ [\<lparr>s_session_id = sid, s_created_at = now\<rparr>]\<rparr>"
  have e1: "ensure_session db sid now = Inr db1"
    using False by (simp add: ensure_session_absent db1_def)
  have "sid \<in> set (map s_session_id (sessions db1))"
    by (simp add: db1_def)
  then have e2: "ensure_session db1 sid now' = Inr db1"
    by (rule ensure_session_present)
  have c: "length [r \<leftarrow> sessions db1. s_session_id r = sid] = 1"
    using False by (simp add: db1_def count_absent)
  have k: "primary_keys_ok db1"
    using assms False by (auto simp: primary_keys_ok_def db1_def)
  show ?thesis
    using e1 e2 c k False by (simp add: db1_def)
qed


theorem ensure_session_idempotent_witness:
  "primary_keys_ok init_db
   \<and> ensure_session init_db ''s1'' ''2025-01-01T10:00:00+00:00'' = Inr db_one
   \<and> ensure_session db_one ''s1'' ''2025-01-02T09:30:00+00:00'' = Inr db_one
   \<and> length [r \<leftarrow> sessions db_one. s_session_id r = ''s1''] = 1"
proof -
  have h: "primary_keys_ok init_db"
    by (simp add: primary_keys_ok_def init_db_def)
  from ensure_session_idempotent [OF h, of "''s1''" "''2025-01-01T10:00:00+00:00''"
      "''2025-01-02T09:30:00+00:00''"]
  obtain db1 where
    a: "ensure_session init_db ''s1'' ''2025-01-01T10:00:00+00:00'' = Inr db1" and
    b: "ensure_session db1 ''s1'' ''2025-01-02T09:30:00+00:00'' = Inr db1" and
    c: "length [r \<leftarrow> sessions db1. s_session_id r = ''s1''] = 1" and
    d: "db1 = (if ''s1'' \<in> set (map s_session_id (sessions init_db)) then init_db
               else init_db\<lparr>sessions := sessions init_db
                      @ [\<lparr>s_session_id = ''s1'', s_created_at = ''2025-01-01T10:00:00+00:00''\<rparr>]\<rparr>)"
    by blast
  from d have "db1 = db_one"
    by (simp add: init_db_def db_one_def)
  with a b c h show ?thesis by simp
qed

section \<open>Properties of the session insert under a race\<close>

text \<open>With no other worker in the interval the block and the function are the sequential ones.\<close>

lemma ensure_session_with_alone: "ensure_session_with (\<lambda>d. d) db sid now = ensure_session db sid now"
  by (simp add: ensure_session_with_def ensure_session_def)

lemma post_query_with_alone:
  "post_query_with (\<lambda>d. d) run fresh_uuid query_id now req db
     = post_query run fresh_uuid query_id now req db"
  by (simp add: post_query_with_def post_query_def prepare_query_with_def prepare_query_def
      ensure_session_with_alone)

lemma ensure_session_with_conflict:
  assumes "sid \<notin> set (map s_session_id (sessions db))"
    and "sid \<in> set (map s_session_id (sessions (others db)))"
  shows "ensure_session_with others db sid now = Inl IntegrityError"
  using assms select_session_None [of db sid]
  by (simp add: ensure_session_with_def insert_session_def)

lemma other_first_query_init_db: "other_first_query init_db = db_race"
  by (simp add: other_first_query_def ensure_session_def select_session_def insert_session_def
      init_db_def db_race_def)

text \<open>
  Claim C4, as stated, fails. Two first queries race on the new session \<^verbatim>\<open>s1\<close>:
  the SELECT of this request finds no row, the other request commits its session row,
  and the INSERT of this request then raises \<^verbatim>\<open>IntegrityError\<close>. The block does
  not catch it: \<^verbatim>\<open>post_query\<close> ends with the error and persists no query.
\<close>

theorem session_insert_conflict_raises:
  "select_session init_db ''s1'' = None
   \<and> other_first_query init_db = db_race
   \<and> ensure_session_with other_first_query init_db ''s1'' ''2025-01-01T10:00:00.000002+00:00''
        = Inl IntegrityError
   \<and> post_query_with other_first_query echo_agent ''uuid-1'' ''uuid-2''
        ''2025-01-01T10:00:00.000002+00:00''
        \<lparr>req_query = ''third question'', req_session_id = Some ''s1''\<rparr> init_db
        = (db_race, Inl IntegrityError)"
proof -
  have a: "select_session init_db ''s1'' = None"
    by (simp add: select_session_def init_db_def)
  have c: "ensure_session_with other_first_query init_db ''s1'' ''2025-01-01T10:00:00.000002+00:00''
        = Inl IntegrityError"
    by (simp add: ensure_session_with_def a other_first_query_init_db insert_session_def db_race_def)
  have d: "post_query_with other_first_query echo_agent ''uuid-1'' ''uuid-2''
        ''2025-01-01T10:00:00.000002+00:00''
        \<lparr>req_query = ''third question'', req_session_id = Some ''s1''\<rparr> init_db
        = (db_race, Inl IntegrityError)"
    by (simp add: post_query_with_def prepare_query_with_def resolve_session_id_def c
        other_first_query_init_db)
  from a other_first_query_init_db c d show ?thesis by (intro conjI)
qed

text \<open>
  Claim C4, amended. A duplicate-key conflict on the session insert is not swallowed.
  The block checks for the row and then runs a plain insert. When the identifier is
  stored at the check, the block attempts no insert, raises nothing and alters no
  row. When the identifier is absent at the check and another request has inserted it
  before this request's insert, the insert raises \<^verbatim>\<open>IntegrityError\<close>,
  \<^verbatim>\<open>post_query\<close> ends with that error without persisting a query, and the stored
  row stays as the other request wrote it. When the identifier is absent at both
  moments, the row is inserted.
\<close>

theorem session_insert_conflict_not_swallowed:
  "(sid \<in> set (map s_session_id (sessions db)) \<longrightarrow>
      ensure_session_with others db sid now = Inr (others db))
   \<and> (sid \<notin> set (map s_session_id (sessions db))
        \<and> sid \<in> set (map s_session_id (sessions (others db))) \<longrightarrow>
      ensure_session_with others db sid now = Inl IntegrityError
      \<and> (resolve_session_id (req_session_id req) fresh_uuid = sid \<longrightarrow>
            post_query_with others run fresh_uuid query_id now req db
              = (others db, Inl IntegrityError)))
   \<and> (sid \<notin> set (map s_session_id (sessions db))
        \<and> sid \<notin> set (map s_session_id (sessions (others db))) \<longrightarrow>
      ensure_session_with others db sid now
        = Inr ((others db)\<lparr>sessions := sessions (others db)
                 @ [\<lparr>s_session_id = sid, s_created_at = now\<rparr>]\<rparr>))"
proof (intro conjI impI)
  assume "sid \<in> set (map s_session_id (sessions db))"
  then show "ensure_session_with others db sid now = Inr (others db)"
    using select_session_None [of db sid]
    by (auto simp: ensure_session_with_def split: option.splits)
next
  assume h: "sid \<notin> set (map s_session_id (sessions db))
        \<and> sid \<in> set (map s_session_id (sessions (others db)))"
  then show c: "ensure_session_with others db sid now = Inl IntegrityError"
    by (simp add: ensure_session_with_conflict)
  assume "resolve_session_id (req_session_id req) fresh_uuid = sid"
  with c show "post_query_with others run fresh_uuid query_id now req db
              = (others db, Inl IntegrityError)"
    by (simp add: post_query_with_def prepare_query_with_def)
next
  assume "sid \<notin> set (map s_session_id (sessions db))
        \<and> sid \<notin> set (map s_session_id (sessions (others db)))"
  then show "ensure_session_with others db sid now
        = Inr ((others db)\<lparr>sessions := sessions (others db)
                 @ [\<lparr>s_session_id = sid, s_created_at = now\<rparr>]\<rparr>)"
    using select_session_None [of db sid]
    by (simp add: ensure_session_with_def insert_session_def)
qed

theorem session_insert_conflict_witness:
  "ensure_session_with other_first_query init_db ''s1'' ''2025-01-01T10:00:00.000002+00:00''
        = Inl IntegrityError
   \<and> post_query_with other_first_query echo_agent ''uuid-1'' ''uuid-2''
        ''2025-01-01T10:00:00.000002+00:00''
        \<lparr>req_query = ''third question'', req_session_id = Some ''s1''\<rparr> init_db
        = (db_race, Inl IntegrityError)
   \<and> ensure_session_with (\<lambda>d. d) db_race ''s1'' ''2025-01-01T10:00:00.000002+00:00''
        = Inr db_race
   \<and> ensure_session_with (\<lambda>d. d) init_db ''s1'' ''2025-01-01T10:00:00.000001+00:00''
        = Inr db_race"
proof -
  let ?t2 = "''2025-01-01T10:00:00.000002+00:00''"
  let ?req = "\<lparr>req_query = ''third question'', req_session_id = Some ''s1''\<rparr>"
  have absent: "''s1'' \<notin> set (map s_session_id (sessions init_db))"
    by (simp add: init_db_def)
  have present: "''s1'' \<in> set (map s_session_id (sessions (other_first_query init_db)))"
    by (simp add: other_first_query_init_db db_race_def)
  have r: "resolve_session_id (req_session_id ?req) ''uuid-1'' = ''s1''"
    by (simp add: resolve_session_id_def)
  note T = session_insert_conflict_not_swallowed [where sid = "''s1''" and db = init_db
      and others = other_first_query and now = ?t2 and req = ?req and fresh_uuid = "''uuid-1''"
      and run = echo_agent and query_id = "''uuid-2''"]
  from T absent present r
  have a: "ensure_session_with other_first_query init_db ''s1'' ?t2 = Inl IntegrityError"
    and b: "post_query_with other_first_query echo_agent ''uuid-1'' ''uuid-2'' ?t2 ?req init_db
        = (other_first_query init_db, Inl IntegrityError)"
    by blast+
  have p: "''s1'' \<in> set (map s_session_id (sessions db_race))"
    by (simp add: db_race_def)
  from session_insert_conflict_not_swallowed [where sid = "''s1''" and db = db_race
      and others = "\<lambda>d. d" and now = ?t2] p
  have c: "ensure_session_with (\<lambda>d. d) db_race ''s1'' ?t2 = Inr db_race"
    by blast
  from session_insert_conflict_not_swallowed [where sid = "''s1''" and db = init_db
      and others = "\<lambda>d. d" and now = "''2025-01-01T10:00:00.000001+00:00''"] absent
  have "ensure_session_with (\<lambda>d. d) init_db ''s1'' ''2025-01-01T10:00:00.000001+00:00''
        = Inr (init_db\<lparr>sessions := sessions init_db
                 @ [\<lparr>s_session_id = ''s1'', s_created_at = ''2025-01-01T10:00:00.000001+00:00''\<rparr>]\<rparr>)"
    by blast
  then have d: "ensure_session_with (\<lambda>d. d) init_db ''s1'' ''2025-01-01T10:00:00.000001+00:00''
        = Inr db_race"
    by (simp add: init_db_def db_race_def)
  from a b c d show ?thesis
    by (simp add: other_first_query_init_db)
qed

section \<open>Properties of the lineage\<close>

lemma scan_sources_fresh:
  "scan_sources seen srcs = seen @ map (\<lambda>s. (document_id s, s)) (fresh_sources (map fst seen) srcs)"
proof (induction srcs arbitrary: seen)
  case Nil
  show ?case by simp
next
  case (Cons s srcs)
  show ?case
  proof (cases "document_id s \<in> set (map fst seen)")
    case True
    then have "map_of seen (document_id s) \<noteq> None"
      by (simp add: map_of_eq_None_iff)
    with True Cons.IH [of seen] show ?thesis by (auto simp: Let_def)
  next
    case False
    then have "map_of seen (document_id s) = None"
      by (simp add: map_of_eq_None_iff)
    with False Cons.IH [of "seen @ [(document_id s, s)]"] show ?thesis by (simp add: Let_def)
  qed
qed

lemma fresh_sources_append:
  "fresh_sources ks (xs @ ys)
     = fresh_sources ks xs @ fresh_sources (ks @ map document_id (fresh_sources ks xs)) ys"
  by (induction xs arbitrary: ks) auto

lemma scan_sources_append:
  "scan_sources seen (xs @ ys) = scan_sources (scan_sources seen xs) ys"
  by (induction xs arbitrary: seen) (auto simp: Let_def)

lemma scan_rows_eq:
  "scan_rows seen acc rows =
     (scan_sources seen (cited rows),
      acc @ map (\<lambda>row. \<lparr>lq_query_id = q_query_id row, lq_user_query = q_user_query row,
                    lq_answer = answer (q_result_json row),
                    lq_confidence = confidence (q_result_json row),
                    lq_reasoning = reasoning (q_result_json row),
                    lq_sources_cited = sources_cited (q_result_json row),
                    lq_created_at = q_created_at row\<rparr>) rows)"
  by (induction rows arbitrary: seen acc) (simp_all add: cited_def scan_sources_append Let_def)

lemma remdups_snoc: "remdups (ys @ [d]) = remdups [y \<leftarrow> ys. y \<noteq> d] @ [d]"
  by (induction ys) auto

lemma first_pos_Cons:
  "first_pos (d # ids) x = (if x = d then 0 else Suc (first_pos ids x))"
  by (simp add: first_pos_def)

lemma fresh_sources_ids:
  "map document_id (fresh_sources ks srcs)
     = rev (remdups (rev [d \<leftarrow> map document_id srcs. d \<notin> set ks]))"
proof (induction srcs arbitrary: ks)
  case Nil
  show ?case by simp
next
  case (Cons s srcs)
  show ?case
  proof (cases "document_id s \<in> set ks")
    case True
    with Cons.IH [of ks] show ?thesis by simp
  next
    case False
    have f: "[d \<leftarrow> map document_id srcs. d \<notin> set (ks @ [document_id s])]
               = [d \<leftarrow> [d \<leftarrow> map document_id srcs. d \<notin> set ks]. d \<noteq> document_id s]"
      by (simp add: conj_commute)
    have "remdups (rev [d \<leftarrow> map document_id srcs. d \<notin> set ks] @ [document_id s])
            = remdups (rev [d \<leftarrow> [d \<leftarrow> map document_id srcs. d \<notin> set ks]. d \<noteq> document_id s])
                @ [document_id s]"
      by (simp add: remdups_snoc rev_filter)
    with False Cons.IH [of "ks @ [document_id s]"] f show ?thesis by simp
  qed
qed

lemma fresh_sources_distinct: "distinct (map document_id (fresh_sources ks srcs))"
  by (simp add: fresh_sources_ids)

lemma fresh_sources_set:
  "set (map document_id (fresh_sources ks srcs)) = set (map document_id srcs) - set ks"
  by (auto simp: fresh_sources_ids)

lemma fresh_sources_first:
  "s \<in> set (fresh_sources ks srcs) \<Longrightarrow> find (\<lambda>x. document_id x = document_id s) srcs = Some s"
proof (induction srcs arbitrary: ks)
  case Nil
  then show ?case by simp
next
  case (Cons a srcs)
  show ?case
  proof (cases "document_id a \<in> set ks")
    case True
    with Cons.prems have m: "s \<in> set (fresh_sources ks srcs)" by simp
    then have "document_id s \<in> set (map document_id (fresh_sources ks srcs))" by simp
    then have "document_id s \<notin> set ks" unfolding fresh_sources_set by simp
    with True have "document_id a \<noteq> document_id s" by auto
    with Cons.IH [OF m] show ?thesis by simp
  next
    case False
    with Cons.prems have "s = a \<or> s \<in> set (fresh_sources (ks @ [document_id a]) srcs)" by simp
    then show ?thesis
    proof
      assume "s = a" then show ?thesis by simp
    next
      assume m: "s \<in> set (fresh_sources (ks @ [document_id a]) srcs)"
      then have "document_id s \<in> set (map document_id (fresh_sources (ks @ [document_id a]) srcs))"
        by simp
      then have "document_id s \<noteq> document_id a" unfolding fresh_sources_set by simp
      with Cons.IH [OF m] show ?thesis by simp
    qed
  qed
qed

lemma fresh_sources_sorted:
  "sorted_wrt (\<lambda>a b. first_pos (map document_id srcs) a < first_pos (map document_id srcs) b)
     (map document_id (fresh_sources ks srcs))"
proof (induction srcs arbitrary: ks)
  case Nil
  show ?case by simp
next
  case (Cons a srcs)
  let ?d = "document_id a"
  have tail: "sorted_wrt (\<lambda>x y. first_pos (?d # map document_id srcs) x
                                 < first_pos (?d # map document_id srcs) y)
                (map document_id (fresh_sources ks' srcs))"
    if "?d \<in> set ks'" for ks'
  proof (rule sorted_wrt_mono_rel [OF _ Cons.IH [of ks']])
    fix x y
    assume "x \<in> set (map document_id (fresh_sources ks' srcs))"
      and "y \<in> set (map document_id (fresh_sources ks' srcs))"
      and lt: "first_pos (map document_id srcs) x < first_pos (map document_id srcs) y"
    then have "x \<noteq> ?d" "y \<noteq> ?d"
      using that unfolding fresh_sources_set by auto
    with lt show "first_pos (?d # map document_id srcs) x < first_pos (?d # map document_id srcs) y"
      by (simp add: first_pos_Cons)
  qed
  show ?case
  proof (cases "?d \<in> set ks")
    case True
    with tail [of ks] show ?thesis by simp
  next
    case False
    have "first_pos (?d # map document_id srcs) ?d < first_pos (?d # map document_id srcs) y"
      if "y \<in> set (map document_id (fresh_sources (ks @ [?d]) srcs))" for y
    proof -
      from that have "y \<noteq> ?d" unfolding fresh_sources_set by simp
      then show ?thesis by (simp add: first_pos_Cons)
    qed
    with False tail [of "ks @ [?d]"] show ?thesis by simp
  qed
qed


lemma sorted_select_queries: "sorted (map q_created_at (select_queries db sid))"
  by (simp add: select_queries_def)

lemma mset_select_queries:
  "mset (select_queries db sid) = mset [q \<leftarrow> queries db. q_session_id q = sid]"
  by (simp add: select_queries_def)

lemma select_queries_empty:
  "select_queries db sid = [] \<longleftrightarrow> sid \<notin> set (map q_session_id (queries db))"
proof -
  have "select_queries db sid = [] \<longleftrightarrow> [q \<leftarrow> queries db. q_session_id q = sid] = []"
    unfolding select_queries_def
    by (metis length_sort length_0_conv)
  then show ?thesis by (auto simp: filter_empty_conv)
qed

lemma get_lineage_eq:
  "get_lineage db sid =
     \<lparr>lin_session_id = sid,
      total_queries = length (select_queries db sid),
      unique_sources = length (fresh_sources [] (cited (select_queries db sid))),
      lin_queries =
        map (\<lambda>row. \<lparr>lq_query_id = q_query_id row, lq_user_query = q_user_query row,
                    lq_answer = answer (q_result_json row),
                    lq_confidence = confidence (q_result_json row),
                    lq_reasoning = reasoning (q_result_json row),
                    lq_sources_cited = sources_cited (q_result_json row),
                    lq_created_at = q_created_at row\<rparr>) (select_queries db sid),
      all_sources = fresh_sources [] (cited (select_queries db sid))\<rparr>"
  by (cases "select_queries db sid = []")
    (simp_all add: get_lineage_def Let_def scan_rows_eq scan_sources_fresh cited_def comp_def)

lemma ex_select_queries: "select_queries ex_db ''s1'' = [row_early, row_late]"
  by (simp add: select_queries_def ex_db_def row_early_def row_late_def)

lemma ex_sources_distinct:
  "document_id src_A_first = document_id src_A_second"
  "document_id src_A_first \<noteq> document_id src_B"
  "document_id src_A_first \<noteq> document_id src_C"
  "document_id src_B \<noteq> document_id src_C"
  "src_A_first \<noteq> src_A_second"
  by (simp_all add: src_A_first_def src_A_second_def src_B_def src_C_def)

lemma ex_cited: "cited [row_early, row_late] = [src_A_first, src_B, src_A_second, src_C]"
  by (simp add: cited_def row_early_def row_late_def)

text \<open>
  Claim C1. The lineage of a session lists all queries of the session, each once, in
  ascending order of creation time, with the fields of the stored row and result. Its
  sources are the citations of those queries, scanned in that order, with one record
  per document identifier: the identifiers appear in the order of their first
  occurrence, each kept record is the first citation carrying its identifier, and
  \<^verbatim>\<open>unique_sources\<close> is the number of distinct document identifiers.
\<close>

theorem get_lineage_queries_and_first_seen_sources:
  "lin_session_id (get_lineage db sid) = sid
   \<and> lin_queries (get_lineage db sid) =
        map (\<lambda>row. \<lparr>lq_query_id = q_query_id row, lq_user_query = q_user_query row,
                    lq_answer = answer (q_result_json row),
                    lq_confidence = confidence (q_result_json row),
                    lq_reasoning = reasoning (q_result_json row),
                    lq_sources_cited = sources_cited (q_result_json row),
                    lq_created_at = q_created_at row\<rparr>) (select_queries db sid)
   \<and> mset (select_queries db sid) = mset [q \<leftarrow> queries db. q_session_id q = sid]
   \<and> sorted (map lq_created_at (lin_queries (get_lineage db sid)))
   \<and> map document_id (all_sources (get_lineage db sid))
        = rev (remdups (rev (map document_id (cited (select_queries db sid)))))
   \<and> (\<forall>s \<in> set (all_sources (get_lineage db sid)).
         find (\<lambda>x. document_id x = document_id s) (cited (select_queries db sid)) = Some s)
   \<and> unique_sources (get_lineage db sid)
        = card (set (map document_id (cited (select_queries db sid))))"
proof -
  let ?rows = "select_queries db sid"
  let ?L = "get_lineage db sid"
  have s: "lin_session_id ?L = sid"
    by (simp add: get_lineage_eq)
  have l: "lin_queries ?L =
        map (\<lambda>row. \<lparr>lq_query_id = q_query_id row, lq_user_query = q_user_query row,
                    lq_answer = answer (q_result_json row),
                    lq_confidence = confidence (q_result_json row),
                    lq_reasoning = reasoning (q_result_json row),
                    lq_sources_cited = sources_cited (q_result_json row),
                    lq_created_at = q_created_at row\<rparr>) ?rows"
    by (simp add: get_lineage_eq)
  have "map lq_created_at (lin_queries ?L) = map q_created_at ?rows"
    by (simp add: get_lineage_eq comp_def)
  then have q: "sorted (map lq_created_at (lin_queries ?L))"
    using sorted_select_queries [of db sid] by simp
  have ids: "map document_id (all_sources ?L)
               = rev (remdups (rev (map document_id (cited ?rows))))"
    by (simp add: get_lineage_eq fresh_sources_ids)
  have "unique_sources ?L = length (map document_id (all_sources ?L))"
    by (simp add: get_lineage_eq)
  also have "\<dots> = card (set (map document_id (cited ?rows)))"
    unfolding ids by (simp add: length_remdups_card_conv)
  finally have u: "unique_sources ?L = card (set (map document_id (cited ?rows)))" .
  have f: "\<forall>s \<in> set (all_sources ?L).
             find (\<lambda>x. document_id x = document_id s) (cited ?rows) = Some s"
    by (simp add: get_lineage_eq fresh_sources_first)
  from s l mset_select_queries [of db sid] q ids f u show ?thesis
    by (intro conjI)
qed


theorem get_lineage_first_seen_witness:
  "map lq_query_id (lin_queries (get_lineage ex_db ''s1'')) = [''q-early'', ''q-late'']
   \<and> all_sources (get_lineage ex_db ''s1'') = [src_A_first, src_B, src_C]
   \<and> unique_sources (get_lineage ex_db ''s1'') = 3
   \<and> src_A_second \<noteq> src_A_first"
proof -
  let ?L = "get_lineage ex_db ''s1''"
  note T = get_lineage_queries_and_first_seen_sources [of ex_db "''s1''",
      unfolded ex_select_queries ex_cited]
  note T2 = T [THEN conjunct2]
  note T5 = T2 [THEN conjunct2, THEN conjunct2, THEN conjunct2]
  from T2 [THEN conjunct1] have q: "map lq_query_id (lin_queries ?L) = [''q-early'', ''q-late'']"
    by (simp add: row_early_def row_late_def)
  from T5 [THEN conjunct1] have ids: "map document_id (all_sources ?L)
      = [''or-art-271'', ''bger-4a-123-2024'', ''zh-mietgericht-2024-31'']"
    by (simp add: src_A_first_def src_A_second_def src_B_def src_C_def)
  then obtain x y z where xs: "all_sources ?L = [x, y, z]"
    and ix: "document_id x = ''or-art-271''"
    and iy: "document_id y = ''bger-4a-123-2024''"
    and iz: "document_id z = ''zh-mietgericht-2024-31''"
    by (auto simp: map_eq_Cons_conv)
  note f = T5 [THEN conjunct2, THEN conjunct1, unfolded xs]
  from f have "find (\<lambda>s. document_id s = document_id x)
      [src_A_first, src_B, src_A_second, src_C] = Some x" by simp
  with ix have x: "x = src_A_first"
    by (simp add: src_A_first_def)
  from f have "find (\<lambda>s. document_id s = document_id y)
      [src_A_first, src_B, src_A_second, src_C] = Some y" by simp
  with iy have y: "y = src_B"
    by (simp add: src_A_first_def src_B_def)
  from f have "find (\<lambda>s. document_id s = document_id z)
      [src_A_first, src_B, src_A_second, src_C] = Some z" by simp
  with iz have z: "z = src_C"
    by (simp add: src_A_first_def src_A_second_def src_B_def src_C_def)
  from x y z xs have a: "all_sources ?L = [src_A_first, src_B, src_C]"
    by simp
  from T5 [THEN conjunct2, THEN conjunct2] have u: "unique_sources ?L = 3"
    by (simp add: src_A_first_def src_A_second_def src_B_def src_C_def card_insert_if)
  from q a u ex_sources_distinct(5) show ?thesis by simp
qed

text \<open>
  Claim C5. For a session identifier without persisted queries, never-seen ones
  included, the lineage lookup returns the empty aggregate: the requested identifier,
  both counts zero, both lists empty. The lookup has no error result.
\<close>

theorem get_lineage_no_queries:
  assumes "sid \<notin> set (map q_session_id (queries db))"
  shows "get_lineage db sid =
           \<lparr>lin_session_id = sid, total_queries = 0, unique_sources = 0,
            lin_queries = [], all_sources = []\<rparr>"
  using assms select_queries_empty [of db sid] by (simp add: get_lineage_def)

theorem get_lineage_no_queries_witness:
  "get_lineage ex_db ''never-seen'' =
     \<lparr>lin_session_id = ''never-seen'', total_queries = 0, unique_sources = 0,
      lin_queries = [], all_sources = []\<rparr>
   \<and> get_lineage ex_db ''s2'' =
     \<lparr>lin_session_id = ''s2'', total_queries = 0, unique_sources = 0,
      lin_queries = [], all_sources = []\<rparr>"
proof -
  have h1: "''never-seen'' \<notin> set (map q_session_id (queries ex_db))"
    by (simp add: ex_db_def row_early_def row_late_def)
  have h2: "''s2'' \<notin> set (map q_session_id (queries ex_db))"
    by (simp add: ex_db_def row_early_def row_late_def)
  from get_lineage_no_queries [OF h1] get_lineage_no_queries [OF h2]
  show ?thesis by simp
qed

text \<open>
  Claim C10. Every lineage response is consistent: \<^verbatim>\<open>total_queries\<close> is the length
  of the query list, \<^verbatim>\<open>unique_sources\<close> the length of \<^verbatim>\<open>all_sources\<close>, no document
  identifier occurs twice in \<^verbatim>\<open>all_sources\<close>, every cited identifier occurs in it, and
  \<^verbatim>\<open>all_sources\<close> is ordered by the position at which each identifier first occurs
  among the citations of the queries taken in order of creation time.
\<close>

theorem lineage_internally_consistent:
  "total_queries (get_lineage db sid) = length (lin_queries (get_lineage db sid))
   \<and> unique_sources (get_lineage db sid) = length (all_sources (get_lineage db sid))
   \<and> distinct (map document_id (all_sources (get_lineage db sid)))
   \<and> set (map document_id (all_sources (get_lineage db sid)))
        = set (map document_id (cited (select_queries db sid)))
   \<and> sorted_wrt (\<lambda>a b. first_pos (map document_id (cited (select_queries db sid))) a
                       < first_pos (map document_id (cited (select_queries db sid))) b)
        (map document_id (all_sources (get_lineage db sid)))"
  using fresh_sources_sorted [of "cited (select_queries db sid)" "[]"]
  by (simp add: get_lineage_eq fresh_sources_distinct fresh_sources_set
      del: set_map)

theorem lineage_internally_consistent_witness:
  "total_queries (get_lineage ex_db ''s1'') = 2
   \<and> length (lin_queries (get_lineage ex_db ''s1'')) = 2
   \<and> unique_sources (get_lineage ex_db ''s1'') = 3
   \<and> length (all_sources (get_lineage ex_db ''s1'')) = 3
   \<and> map document_id (all_sources (get_lineage ex_db ''s1''))
        = [''or-art-271'', ''bger-4a-123-2024'', ''zh-mietgericht-2024-31'']
   \<and> map (first_pos (map document_id (cited (select_queries ex_db ''s1''))))
        [''or-art-271'', ''bger-4a-123-2024'', ''zh-mietgericht-2024-31''] = [0, 1, 3]"
proof -
  let ?L = "get_lineage ex_db ''s1''"
  have e: "?L = \<lparr>lin_session_id = ''s1'', total_queries = 2, unique_sources = 3,
      lin_queries =
        [\<lparr>lq_query_id = ''q-early'', lq_user_query = ''first question'', lq_answer = ''a1'',
          lq_confidence = ''high'', lq_reasoning = ''r1'',
          lq_sources_cited = [src_A_first, src_B],
          lq_created_at = ''2025-01-01T10:00:00+00:00''\<rparr>,
         \<lparr>lq_query_id = ''q-late'', lq_user_query = ''second question'', lq_answer = ''a2'',
          lq_confidence = ''medium'', lq_reasoning = ''r2'',
          lq_sources_cited = [src_A_second, src_C],
          lq_created_at = ''2025-01-01T11:00:00+00:00''\<rparr>],
      all_sources = [src_A_first, src_B, src_C]\<rparr>"
    using ex_sources_distinct
    by (simp add: get_lineage_def ex_select_queries row_early_def row_late_def)
  have p: "map (first_pos (map document_id (cited (select_queries ex_db ''s1''))))
        [''or-art-271'', ''bger-4a-123-2024'', ''zh-mietgericht-2024-31''] = [0, 1, 3]"
    by (simp add: ex_select_queries ex_cited first_pos_def
        src_A_first_def src_A_second_def src_B_def src_C_def)
  from lineage_internally_consistent [of ex_db "''s1''"] e p
  show ?thesis
    by (simp add: src_A_first_def src_B_def src_C_def)
qed

section \<open>Properties of the conversation history\<close>

lemma last_insort_key_le:
  "zs \<noteq> [] \<Longrightarrow> f y \<le> f (last zs) \<Longrightarrow> last (insort_key f y zs) = last zs"
  by (induction zs) auto

lemma sort_key_eq_Nil: "sort_key f xs = [] \<longleftrightarrow> xs = []"
  by (metis length_sort length_0_conv)

lemma last_sort_key_snoc:
  "\<forall>y \<in> set xs. f y \<le> f x \<Longrightarrow> last (sort_key f (xs @ [x])) = x"
proof (induction xs)
  case Nil
  show ?case by simp
next
  case (Cons a xs)
  then have "last (sort_key f (xs @ [x])) = x" by simp
  moreover have "sort_key f (xs @ [x]) \<noteq> []" by (simp add: sort_key_eq_Nil)
  moreover from Cons.prems have "f a \<le> f x" by simp
  ultimately show ?case by (simp add: last_insort_key_le)
qed

lemma sorted_le_last: "sorted xs \<Longrightarrow> x \<in> set xs \<Longrightarrow> x \<le> last xs"
  by (induction xs) auto

lemma last_sort_key_max:
  assumes "xs \<noteq> []"
  shows "last (sort_key f xs) \<in> set xs \<and> (\<forall>y \<in> set xs. f y \<le> f (last (sort_key f xs)))"
proof -
  let ?ys = "sort_key f xs"
  from assms have ne: "?ys \<noteq> []" by (simp add: sort_key_eq_Nil)
  then have m: "last ?ys \<in> set xs"
    using last_in_set [of ?ys] by simp
  have "f y \<le> f (last ?ys)" if "y \<in> set xs" for y
  proof -
    from that have "f y \<in> set (map f ?ys)" by simp
    moreover have "sorted (map f ?ys)" by simp
    ultimately have "f y \<le> last (map f ?ys)"
      by (simp add: sorted_le_last)
    with ne show ?thesis by (simp add: last_map)
  qed
  with m show ?thesis by blast
qed

lemma load_last_history_None:
  "load_last_history db sid = None \<longleftrightarrow> sid \<notin> set (map q_session_id (queries db))"
  using select_queries_empty [of db sid] by (simp add: load_last_history_def Let_def)

lemma load_last_history_Some:
  assumes "sid \<in> set (map q_session_id (queries db))"
  shows "\<exists>r \<in> set (queries db). q_session_id r = sid
           \<and> load_last_history db sid = Some (q_messages_json r)
           \<and> (\<forall>q \<in> set (queries db). q_session_id q = sid \<longrightarrow> q_created_at q \<le> q_created_at r)"
proof -
  let ?xs = "[q \<leftarrow> queries db. q_session_id q = sid]"
  let ?r = "last (sort_key q_created_at ?xs)"
  from assms have ne: "?xs \<noteq> []" by (auto simp: filter_empty_conv)
  from last_sort_key_max [OF ne, of q_created_at]
  have m: "?r \<in> set ?xs" and mx: "\<forall>y \<in> set ?xs. q_created_at y \<le> q_created_at ?r"
    by blast+
  from ne have "load_last_history db sid = Some (q_messages_json ?r)"
    by (simp add: load_last_history_def Let_def select_queries_def sort_key_eq_Nil last_map)
  with m mx show ?thesis by auto
qed

lemma load_last_history_snoc:
  assumes "q_session_id row = sid"
    and "\<forall>q \<in> set (queries db). q_session_id q = sid \<longrightarrow> q_created_at q \<le> q_created_at row"
  shows "load_last_history (db\<lparr>queries := queries db @ [row]\<rparr>) sid = Some (q_messages_json row)"
proof -
  let ?xs = "[q \<leftarrow> queries db. q_session_id q = sid]"
  from assms(2) have "\<forall>y \<in> set ?xs. q_created_at y \<le> q_created_at row" by simp
  then have "last (sort_key q_created_at (?xs @ [row])) = row"
    by (rule last_sort_key_snoc)
  with assms(1) show ?thesis
    by (simp add: load_last_history_def Let_def select_queries_def sort_key_eq_Nil last_map)
qed

lemma load_last_history_sessions_update [simp]:
  "load_last_history (db\<lparr>sessions := ss\<rparr>) sid = load_last_history db sid"
  by (simp add: load_last_history_def select_queries_def)

lemma ensure_session_cases:
  "ensure_session db sid now = Inr db1 \<Longrightarrow>
     queries db1 = queries db \<and> sid \<in> set (map s_session_id (sessions db1))
     \<and> load_last_history db1 sid = load_last_history db sid"
  by (cases "sid \<in> set (map s_session_id (sessions db))")
     (auto simp: ensure_session_present ensure_session_absent)

lemma ensure_session_total: "\<exists>db1. ensure_session db sid now = Inr db1"
  by (cases "sid \<in> set (map s_session_id (sessions db))")
     (auto simp: ensure_session_present ensure_session_absent)

lemma post_query_success:
  assumes "post_query run u qid now req db = (db', Inr resp)"
  shows "\<exists>db1 result.
           ensure_session db (resolve_session_id (req_session_id req) u) now = Inr db1
           \<and> run (req_query req)
                 \<lparr>deps_session_id = resolve_session_id (req_session_id req) u,
                  deps_user_query = req_query req\<rparr>
                 (load_last_history db1 (resolve_session_id (req_session_id req) u)) = Inr result
           \<and> insert_query db1
                 \<lparr>q_query_id = qid, q_session_id = resolve_session_id (req_session_id req) u,
                  q_user_query = req_query req, q_result_json = run_output result,
                  q_messages_json = run_new_messages_json result, q_created_at = now\<rparr> = Inr db'
           \<and> resp = \<lparr>resp_session_id = resolve_session_id (req_session_id req) u,
                      resp_query_id = qid, resp_result = run_output result\<rparr>"
  using assms
  by (auto simp: post_query_def prepare_query_def Let_def split: sum.splits)

lemma insert_query_Inr:
  "insert_query db row = Inr db' \<Longrightarrow> db' = db\<lparr>queries := queries db @ [row]\<rparr>"
  by (auto simp: insert_query_def split: if_splits)

text \<open>
  Claim C2, amended. The history loaded for a session is \<^verbatim>\<open>None\<close> exactly when
  the session has no persisted query; otherwise it is the history blob of a query of
  the session whose creation time is the latest of the session. When a query is
  submitted with a non-empty session identifier, no creation time stored for the
  session is later than its clock reading and the call succeeds, then a following
  query with the same identifier loads exactly the blob the first call persisted.
\<close>

theorem history_is_latest_blob:
  "(load_last_history db sid = None \<longleftrightarrow> sid \<notin> set (map q_session_id (queries db)))
   \<and> (sid \<in> set (map q_session_id (queries db)) \<longrightarrow>
        (\<exists>r \<in> set (queries db). q_session_id r = sid
            \<and> load_last_history db sid = Some (q_messages_json r)
            \<and> (\<forall>q \<in> set (queries db). q_session_id q = sid
                  \<longrightarrow> q_created_at q \<le> q_created_at r)))
   \<and> (sid \<noteq> [] \<and> req_session_id req1 = Some sid \<and> req_session_id req2 = Some sid
       \<and> (\<forall>q \<in> set (queries db). q_session_id q = sid \<longrightarrow> q_created_at q \<le> now1)
       \<and> post_query run u1 qid1 now1 req1 db = (db', Inr resp) \<longrightarrow>
        (\<exists>result.
            run (req_query req1) \<lparr>deps_session_id = sid, deps_user_query = req_query req1\<rparr>
                (load_last_history db sid) = Inr result
            \<and> last (queries db') =
                 \<lparr>q_query_id = qid1, q_session_id = sid, q_user_query = req_query req1,
                  q_result_json = run_output result,
                  q_messages_json = run_new_messages_json result, q_created_at = now1\<rparr>
            \<and> prepare_query u2 now2 req2 db'
                 = Inr (sid, db', Some (run_new_messages_json result))))"
proof (intro conjI impI)
  show "load_last_history db sid = None \<longleftrightarrow> sid \<notin> set (map q_session_id (queries db))"
    by (rule load_last_history_None)
next
  assume "sid \<in> set (map q_session_id (queries db))"
  then show "\<exists>r \<in> set (queries db). q_session_id r = sid
            \<and> load_last_history db sid = Some (q_messages_json r)
            \<and> (\<forall>q \<in> set (queries db). q_session_id q = sid
                  \<longrightarrow> q_created_at q \<le> q_created_at r)"
    by (rule load_last_history_Some)
next
  assume h: "sid \<noteq> [] \<and> req_session_id req1 = Some sid \<and> req_session_id req2 = Some sid
       \<and> (\<forall>q \<in> set (queries db). q_session_id q = sid \<longrightarrow> q_created_at q \<le> now1)
       \<and> post_query run u1 qid1 now1 req1 db = (db', Inr resp)"
  then have r1: "resolve_session_id (req_session_id req1) u1 = sid"
    and r2: "resolve_session_id (req_session_id req2) u2 = sid"
    by (simp_all add: resolve_session_id_def)
  let ?row = "\<lambda>result. \<lparr>q_query_id = qid1, q_session_id = sid, q_user_query = req_query req1,
                  q_result_json = run_output result,
                  q_messages_json = run_new_messages_json result, q_created_at = now1\<rparr>"
  from h post_query_success [of run u1 qid1 now1 req1 db db' resp]
  obtain db1 result where
    e: "ensure_session db sid now1 = Inr db1" and
    a: "run (req_query req1) \<lparr>deps_session_id = sid, deps_user_query = req_query req1\<rparr>
          (load_last_history db1 sid) = Inr result" and
    i: "insert_query db1 (?row result) = Inr db'"
    unfolding r1 by blast
  note c = ensure_session_cases [OF e]
  from i have d: "db' = db1\<lparr>queries := queries db1 @ [?row result]\<rparr>"
    by (rule insert_query_Inr)
  from h c have "\<forall>q \<in> set (queries db1). q_session_id q = sid
      \<longrightarrow> q_created_at q \<le> q_created_at (?row result)" by simp
  then have l: "load_last_history db' sid = Some (run_new_messages_json result)"
    unfolding d using load_last_history_snoc [of "?row result" sid db1] by simp
  from c d have "sid \<in> set (map s_session_id (sessions db'))" by simp
  then have "ensure_session db' sid now2 = Inr db'"
    by (rule ensure_session_present)
  with l r2 have p: "prepare_query u2 now2 req2 db'
      = Inr (sid, db', Some (run_new_messages_json result))"
    by (simp add: prepare_query_def)
  from d have "last (queries db') = ?row result" by simp
  with a c p
  show "\<exists>result.
            run (req_query req1) \<lparr>deps_session_id = sid, deps_user_query = req_query req1\<rparr>
                (load_last_history db sid) = Inr result
            \<and> last (queries db') =
                 \<lparr>q_query_id = qid1, q_session_id = sid, q_user_query = req_query req1,
                  q_result_json = run_output result,
                  q_messages_json = run_new_messages_json result, q_created_at = now1\<rparr>
            \<and> prepare_query u2 now2 req2 db'
                 = Inr (sid, db', Some (run_new_messages_json result))"
    by auto
qed

lemma post_query_echo_db_late:
  "post_query echo_agent ''uuid-1'' ''uuid-2'' now
     \<lparr>req_query = ''third question'', req_session_id = Some ''s1''\<rparr> db_late
   = (db_late\<lparr>queries := [row_late, row_third ''s1'' now]\<rparr>, Inr (resp_third ''s1''))"
  by (simp add: Let_def post_query_def prepare_query_def resolve_session_id_def ensure_session_def
      select_session_def insert_query_def echo_agent_def db_late_def row_late_def
      row_third_def resp_third_def)

text \<open>
  Claim C2, as stated, fails in two ways. Two queries that both carry the empty
  session identifier are given fresh sessions, so the second loads no history
  although the first persisted a blob. And when the clock reading of the first call
  is earlier than a creation time stored for the session (the call began before, and
  ended after, another query on the session), the second call loads the blob with the
  later creation time, not the one the first call persisted.
\<close>

theorem history_continuity_fails:
  "post_query echo_agent ''uuid-1'' ''uuid-2'' ''2025-01-01T12:00:00+00:00''
      \<lparr>req_query = ''third question'', req_session_id = Some ''''\<rparr> init_db
     = (db_anon, Inr (resp_third ''uuid-1''))
   \<and> map q_messages_json (queries db_anon) = [''messages of third question'']
   \<and> prepare_query ''uuid-3'' ''2025-01-01T12:05:00+00:00''
        \<lparr>req_query = ''fourth question'', req_session_id = Some ''''\<rparr> db_anon
     = Inr (''uuid-3'',
            db_anon\<lparr>sessions := sessions db_anon
               @ [\<lparr>s_session_id = ''uuid-3'', s_created_at = ''2025-01-01T12:05:00+00:00''\<rparr>]\<rparr>,
            None)
   \<and> post_query echo_agent ''uuid-1'' ''uuid-2'' ''2025-01-01T10:30:00+00:00''
        \<lparr>req_query = ''third question'', req_session_id = Some ''s1''\<rparr> db_late
     = (db_stale, Inr (resp_third ''s1''))
   \<and> map q_messages_json (queries db_stale) = [''m-late'', ''messages of third question'']
   \<and> prepare_query ''uuid-3'' ''2025-01-01T12:05:00+00:00''
        \<lparr>req_query = ''fourth question'', req_session_id = Some ''s1''\<rparr> db_stale
     = Inr (''s1'', db_stale, Some ''m-late'')"
proof -
  have a: "post_query echo_agent ''uuid-1'' ''uuid-2'' ''2025-01-01T12:00:00+00:00''
      \<lparr>req_query = ''third question'', req_session_id = Some ''''\<rparr> init_db
     = (db_anon, Inr (resp_third ''uuid-1''))"
    by (simp add: Let_def post_query_def prepare_query_def resolve_session_id_def ensure_session_def
        select_session_def insert_session_def insert_query_def load_last_history_def
        select_queries_def echo_agent_def init_db_def db_anon_def row_third_def resp_third_def)
  have b: "map q_messages_json (queries db_anon) = [''messages of third question'']"
    by (simp add: db_anon_def row_third_def)
  have c: "prepare_query ''uuid-3'' ''2025-01-01T12:05:00+00:00''
        \<lparr>req_query = ''fourth question'', req_session_id = Some ''''\<rparr> db_anon
     = Inr (''uuid-3'',
            db_anon\<lparr>sessions := sessions db_anon
               @ [\<lparr>s_session_id = ''uuid-3'', s_created_at = ''2025-01-01T12:05:00+00:00''\<rparr>]\<rparr>,
            None)"
    by (simp add: Let_def prepare_query_def resolve_session_id_def ensure_session_def
        select_session_def insert_session_def load_last_history_def
        select_queries_def db_anon_def row_third_def)
  have d: "post_query echo_agent ''uuid-1'' ''uuid-2'' ''2025-01-01T10:30:00+00:00''
        \<lparr>req_query = ''third question'', req_session_id = Some ''s1''\<rparr> db_late
     = (db_stale, Inr (resp_third ''s1''))"
    by (simp add: post_query_echo_db_late db_stale_def)
  have e: "map q_messages_json (queries db_stale) = [''m-late'', ''messages of third question'']"
    by (simp add: db_stale_def row_late_def row_third_def)
  have f: "prepare_query ''uuid-3'' ''2025-01-01T12:05:00+00:00''
        \<lparr>req_query = ''fourth question'', req_session_id = Some ''s1''\<rparr> db_stale
     = Inr (''s1'', db_stale, Some ''m-late'')"
    by (simp add: Let_def prepare_query_def resolve_session_id_def ensure_session_def
        select_session_def load_last_history_def select_queries_def
        db_stale_def db_late_def row_late_def row_third_def)
  from a b c d e f show ?thesis by (intro conjI)
qed

theorem history_is_latest_blob_witness:
  "load_last_history db_late ''s1'' = Some ''m-late''
   \<and> load_last_history db_late ''s2'' = None
   \<and> post_query echo_agent ''uuid-1'' ''uuid-2'' ''2025-01-01T12:00:00+00:00''
        \<lparr>req_query = ''third question'', req_session_id = Some ''s1''\<rparr> db_late
     = (db_cont, Inr (resp_third ''s1''))
   \<and> prepare_query ''uuid-3'' ''2025-01-01T12:05:00+00:00''
        \<lparr>req_query = ''fourth question'', req_session_id = Some ''s1''\<rparr> db_cont
     = Inr (''s1'', db_cont, Some ''messages of third question'')"
proof -
  let ?req1 = "\<lparr>req_query = ''third question'', req_session_id = Some ''s1''\<rparr>"
  let ?req2 = "\<lparr>req_query = ''fourth question'', req_session_id = Some ''s1''\<rparr>"
  let ?now1 = "''2025-01-01T12:00:00+00:00''"
  have p: "post_query echo_agent ''uuid-1'' ''uuid-2'' ?now1 ?req1 db_late
     = (db_cont, Inr (resp_third ''s1''))"
    by (simp add: post_query_echo_db_late db_cont_def)
  have h: "''s1'' \<noteq> [] \<and> req_session_id ?req1 = Some ''s1'' \<and> req_session_id ?req2 = Some ''s1''
       \<and> (\<forall>q \<in> set (queries db_late). q_session_id q = ''s1'' \<longrightarrow> q_created_at q \<le> ?now1)"
    by (simp add: db_late_def row_late_def)
  have m: "''s1'' \<in> set (map q_session_id (queries db_late))"
    by (simp add: db_late_def row_late_def)
  have n: "''s2'' \<notin> set (map q_session_id (queries db_late))"
    by (simp add: db_late_def row_late_def)
  note T1 = history_is_latest_blob [where db = db_late and sid = "''s1''" and ?req1.0 = ?req1
      and ?req2.0 = ?req2 and ?now1.0 = ?now1 and run = echo_agent and ?u1.0 = "''uuid-1''"
      and ?qid1.0 = "''uuid-2''" and db' = db_cont and resp = "resp_third ''s1''"
      and ?u2.0 = "''uuid-3''" and ?now2.0 = "''2025-01-01T12:05:00+00:00''"]
  note T2 = history_is_latest_blob [where db = db_late and sid = "''s2''" and ?req1.0 = ?req1
      and ?req2.0 = ?req2 and ?now1.0 = ?now1 and run = echo_agent and ?u1.0 = "''uuid-1''"
      and ?qid1.0 = "''uuid-2''" and db' = db_cont and resp = "resp_third ''s1''"
      and ?u2.0 = "''uuid-3''" and ?now2.0 = "''2025-01-01T12:05:00+00:00''"]
  from T1 m have "\<exists>r \<in> set (queries db_late). q_session_id r = ''s1''
            \<and> load_last_history db_late ''s1'' = Some (q_messages_json r)
            \<and> (\<forall>q \<in> set (queries db_late). q_session_id q = ''s1''
                  \<longrightarrow> q_created_at q \<le> q_created_at r)"
    by blast
  then have a: "load_last_history db_late ''s1'' = Some ''m-late''"
    by (simp add: db_late_def row_late_def)
  from T2 n have b: "load_last_history db_late ''s2'' = None"
    by blast
  from T1 h p obtain result where
    r: "echo_agent (req_query ?req1)
          \<lparr>deps_session_id = ''s1'', deps_user_query = req_query ?req1\<rparr>
          (load_last_history db_late ''s1'') = Inr result" and
    c: "prepare_query ''uuid-3'' ''2025-01-01T12:05:00+00:00'' ?req2 db_cont
          = Inr (''s1'', db_cont, Some (run_new_messages_json result))"
    by blast
  from r have "run_new_messages_json result = ''messages of third question''"
    by (auto simp: echo_agent_def)
  with c a b p show ?thesis by simp
qed

section \<open>Properties of the session list\<close>

lemma left_join_Cons:
  "left_join (s # ss) qs = left_join [s] qs @ left_join ss qs"
  by (simp add: left_join_def)

lemma left_join_single_fst: "x \<in> set (left_join [s] qs) \<Longrightarrow> fst x = s"
  by (auto simp: left_join_def split: list.splits)

lemma left_join_single_ne: "left_join [s] qs \<noteq> []"
  by (simp add: left_join_def split: list.splits)

lemma left_join_single_count:
  "length [x \<leftarrow> left_join [s] qs. snd x \<noteq> None]
     = length [q \<leftarrow> qs. q_session_id q = s_session_id s]"
proof -
  have e: "[q \<leftarrow> qs. s_session_id s = q_session_id q] = [q \<leftarrow> qs. q_session_id q = s_session_id s]"
    by (rule filter_cong) auto
  show ?thesis
    by (cases "[q \<leftarrow> qs. q_session_id q = s_session_id s]")
      (simp_all add: left_join_def e comp_def)
qed

lemma left_join_keys: "x \<in> set (left_join ss qs) \<Longrightarrow> fst x \<in> set ss"
proof (induction ss)
  case Nil
  then show ?case by (simp add: left_join_def)
next
  case (Cons s ss)
  then show ?case
    using left_join_single_fst [of x s qs] by (auto simp: left_join_Cons [of s ss])
qed

lemma group_rows_one_session:
  assumes "rs \<noteq> []" and "\<forall>x \<in> set rs. fst x = s"
    and "\<forall>x \<in> set rest. s_session_id (fst x) \<noteq> s_session_id s"
  shows "group_rows (rs @ rest) =
           \<lparr>ls_session_id = s_session_id s, ls_created_at = s_created_at s,
            query_count = length [x \<leftarrow> rs. snd x \<noteq> None]\<rparr> # group_rows rest"
proof -
  from assms(1) obtain r rs' where rs: "rs = r # rs'" by (cases rs) auto
  with assms(2) have r: "fst r = s" and rs': "\<forall>x \<in> set rs'. fst x = s" by auto
  have a: "[x \<leftarrow> rs'. s_session_id (fst x) = s_session_id s] = rs'"
    "[x \<leftarrow> rs'. s_session_id (fst x) \<noteq> s_session_id s] = []"
    using rs' by (simp_all add: filter_empty_conv filter_id_conv)
  have b: "[x \<leftarrow> rest. s_session_id (fst x) = s_session_id s] = []"
    "[x \<leftarrow> rest. s_session_id (fst x) \<noteq> s_session_id s] = rest"
    using assms(3) by (simp_all add: filter_empty_conv filter_id_conv)
  have "group_rows (r # (rs' @ rest)) =
          \<lparr>ls_session_id = s_session_id s, ls_created_at = s_created_at s,
           query_count = length [x \<leftarrow> r # rs'. snd x \<noteq> None]\<rparr> # group_rows rest"
    unfolding group_rows.simps Let_def filter_append a b r by simp
  then show ?thesis
    unfolding rs by simp
qed

lemma group_rows_left_join:
  "distinct (map s_session_id ss) \<Longrightarrow>
     group_rows (left_join ss qs) = map (session_entry_of qs) ss"
proof (induction ss)
  case Nil
  show ?case by (simp add: left_join_def)
next
  case (Cons s ss)
  have "\<forall>x \<in> set (left_join ss qs). s_session_id (fst x) \<noteq> s_session_id s"
  proof
    fix x assume "x \<in> set (left_join ss qs)"
    then have "fst x \<in> set ss" by (rule left_join_keys)
    then have "s_session_id (fst x) \<in> s_session_id ` set ss" by (rule imageI)
    moreover from Cons.prems have "s_session_id s \<notin> s_session_id ` set ss" by simp
    ultimately show "s_session_id (fst x) \<noteq> s_session_id s" by metis
  qed
  then have "group_rows (left_join [s] qs @ left_join ss qs) =
           \<lparr>ls_session_id = s_session_id s, ls_created_at = s_created_at s,
            query_count = length [x \<leftarrow> left_join [s] qs. snd x \<noteq> None]\<rparr>
           # group_rows (left_join ss qs)"
    using left_join_single_ne [of s qs] left_join_single_fst [of _ s qs]
    by (intro group_rows_one_session) auto
  with Cons left_join_single_count [of s qs] show ?case
    by (simp add: left_join_Cons [of s ss] session_entry_of_def)
qed

lemma mset_order_by_desc: "mset (order_by_desc f xs) = mset xs"
  by (simp add: order_by_desc_def)

lemma sorted_order_by_desc: "sorted_wrt (\<lambda>a b. b \<le> a) (map f (order_by_desc f xs))"
proof -
  have "sorted_wrt (\<le>) (rev (map f (order_by_desc f xs)))"
    using sorted_sort_key [of f "rev xs"] by (simp add: order_by_desc_def rev_map)
  then show ?thesis
    unfolding sorted_wrt_rev .
qed

lemma list_sessions_eq:
  "distinct (map s_session_id (sessions db)) \<Longrightarrow>
     list_sessions db
       = order_by_desc ls_created_at
           (sort_key ls_session_id (map (session_entry_of (queries db)) (sessions db)))"
  by (simp add: list_sessions_def group_rows_left_join)

text \<open>
  Claim C8. On a database that respects its primary keys, the session list holds one
  entry for every stored session and nothing else, each entry carrying the session's
  identifier, its creation time and the number of its queries; the entries are in
  descending order of creation time; and a session without queries is listed with
  \<^verbatim>\<open>query_count\<close> 0.
\<close>

theorem list_sessions_all_sessions_with_counts:
  assumes "primary_keys_ok db"
  shows "mset (list_sessions db) = mset (map (session_entry_of (queries db)) (sessions db))
         \<and> sorted_wrt (\<lambda>a b. b \<le> a) (map ls_created_at (list_sessions db))
         \<and> (\<forall>s \<in> set (sessions db).
               \<lparr>ls_session_id = s_session_id s, ls_created_at = s_created_at s,
                query_count = length [q \<leftarrow> queries db. q_session_id q = s_session_id s]\<rparr>
                 \<in> set (list_sessions db))
         \<and> (\<forall>s \<in> set (sessions db).
               s_session_id s \<notin> set (map q_session_id (queries db)) \<longrightarrow>
               \<lparr>ls_session_id = s_session_id s, ls_created_at = s_created_at s,
                query_count = 0\<rparr> \<in> set (list_sessions db))"
proof -
  from assms have d: "distinct (map s_session_id (sessions db))"
    by (simp add: primary_keys_ok_def)
  have m: "mset (list_sessions db) = mset (map (session_entry_of (queries db)) (sessions db))"
    by (simp add: list_sessions_eq [OF d] mset_order_by_desc)
  have o: "sorted_wrt (\<lambda>a b. b \<le> a) (map ls_created_at (list_sessions db))"
    unfolding list_sessions_eq [OF d] by (rule sorted_order_by_desc)
  from m have st: "set (list_sessions db) = session_entry_of (queries db) ` set (sessions db)"
    by (metis set_mset_mset set_map)
  have a: "\<forall>s \<in> set (sessions db).
               \<lparr>ls_session_id = s_session_id s, ls_created_at = s_created_at s,
                query_count = length [q \<leftarrow> queries db. q_session_id q = s_session_id s]\<rparr>
                 \<in> set (list_sessions db)"
    unfolding st by (auto simp: session_entry_of_def image_iff)
  have z: "\<forall>s \<in> set (sessions db).
               s_session_id s \<notin> set (map q_session_id (queries db)) \<longrightarrow>
               \<lparr>ls_session_id = s_session_id s, ls_created_at = s_created_at s,
                query_count = 0\<rparr> \<in> set (list_sessions db)"
  proof (intro ballI impI)
    fix s assume s: "s \<in> set (sessions db)"
      and n: "s_session_id s \<notin> set (map q_session_id (queries db))"
    from n have "[q \<leftarrow> queries db. q_session_id q = s_session_id s] = []"
      by (rule count_absent)
    with a s show "\<lparr>ls_session_id = s_session_id s, ls_created_at = s_created_at s,
                query_count = 0\<rparr> \<in> set (list_sessions db)"
      by fastforce
  qed
  from m o a z show ?thesis by (intro conjI)
qed

theorem list_sessions_witness:
  "primary_keys_ok ex_db
   \<and> list_sessions ex_db =
       [\<lparr>ls_session_id = ''s2'', ls_created_at = ''2025-01-01T12:00:00+00:00'', query_count = 0\<rparr>,
        \<lparr>ls_session_id = ''s1'', ls_created_at = ''2025-01-01T10:00:00+00:00'', query_count = 2\<rparr>]
   \<and> \<lparr>ls_session_id = ''s2'', ls_created_at = ''2025-01-01T12:00:00+00:00'', query_count = 0\<rparr>
        \<in> set (list_sessions ex_db)"
proof -
  have h: "primary_keys_ok ex_db"
    by (simp add: primary_keys_ok_def ex_db_def row_early_def row_late_def)
  have s: "\<lparr>s_session_id = ''s2'', s_created_at = ''2025-01-01T12:00:00+00:00''\<rparr>
             \<in> set (sessions ex_db)"
    by (simp add: ex_db_def)
  have n: "''s2'' \<notin> set (map q_session_id (queries ex_db))"
    by (simp add: ex_db_def row_early_def row_late_def)
  from list_sessions_all_sessions_with_counts [OF h] s n
  have z: "\<lparr>ls_session_id = ''s2'', ls_created_at = ''2025-01-01T12:00:00+00:00'', query_count = 0\<rparr>
        \<in> set (list_sessions ex_db)"
    by fastforce
  have e: "list_sessions ex_db =
       [\<lparr>ls_session_id = ''s2'', ls_created_at = ''2025-01-01T12:00:00+00:00'', query_count = 0\<rparr>,
        \<lparr>ls_session_id = ''s1'', ls_created_at = ''2025-01-01T10:00:00+00:00'', query_count = 2\<rparr>]"
    by (simp add: list_sessions_def left_join_def order_by_desc_def Let_def
        ex_db_def row_early_def row_late_def)
  from h e z show ?thesis by (intro conjI)
qed

section \<open>Properties of the seeding\<close>

lemma embed_documents_ok:
  "\<forall>k < length docs. emb (sd_text (docs ! k)) = Inr (vec (i + k)) \<Longrightarrow>
     embed_documents emb i pts docs
       = Inr (pts @ map (\<lambda>k. seed_point (vec (i + k)) (i + k) (docs ! k)) [0..<length docs])"
proof (induction docs arbitrary: i pts)
  case Nil
  show ?case by simp
next
  case (Cons doc docs)
  from Cons.prems have h0: "emb (sd_text doc) = Inr (vec i)"
    by (auto dest: spec [of _ 0])
  have hs: "\<forall>k < length docs. emb (sd_text (docs ! k)) = Inr (vec (Suc i + k))"
  proof (intro allI impI)
    fix k assume "k < length docs"
    with Cons.prems have "emb (sd_text ((doc # docs) ! Suc k)) = Inr (vec (i + Suc k))"
      by (auto dest: spec [of _ "Suc k"])
    then show "emb (sd_text (docs ! k)) = Inr (vec (Suc i + k))" by simp
  qed
  have "map (\<lambda>k. seed_point (vec (i + k)) (i + k) ((doc # docs) ! k)) [0..<length (doc # docs)]
          = seed_point (vec i) i doc
            # map (\<lambda>k. seed_point (vec (Suc i + k)) (Suc i + k) (docs ! k)) [0..<length docs]"
    by (simp add: upt_conv_Cons map_Suc_upt [symmetric] comp_def del: upt_Suc)
  with Cons.IH [OF hs, of "pts @ [seed_point (vec i) i doc]"] h0 show ?case
    by (simp add: seed_point_def)
qed

lemma embed_documents_Inr:
  "embed_documents emb i pts docs = Inr ps \<Longrightarrow>
     \<exists>vs. length vs = length docs
          \<and> (\<forall>k < length docs. emb (sd_text (docs ! k)) = Inr (vs ! k))
          \<and> ps = pts @ map (\<lambda>k. seed_point (vs ! k) (i + k) (docs ! k)) [0..<length docs]"
proof (induction docs arbitrary: i pts)
  case Nil
  then show ?case by simp
next
  case (Cons doc docs)
  from Cons.prems obtain v where v: "emb (sd_text doc) = Inr v"
    by (cases "emb (sd_text doc)") auto
  with Cons.prems have "embed_documents emb (Suc i) (pts @ [seed_point v i doc]) docs = Inr ps"
    by (simp add: seed_point_def)
  from Cons.IH [OF this] obtain vs where
    l: "length vs = length docs" and
    e: "\<forall>k < length docs. emb (sd_text (docs ! k)) = Inr (vs ! k)" and
    p: "ps = (pts @ [seed_point v i doc])
          @ map (\<lambda>k. seed_point (vs ! k) (Suc i + k) (docs ! k)) [0..<length docs]"
    by blast
  have e': "\<forall>k < length (doc # docs). emb (sd_text ((doc # docs) ! k)) = Inr ((v # vs) ! k)"
    using v e by (auto simp: nth_Cons split: nat.splits)
  have "map (\<lambda>k. seed_point ((v # vs) ! k) (i + k) ((doc # docs) ! k)) [0..<length (doc # docs)]
          = seed_point v i doc
            # map (\<lambda>k. seed_point (vs ! k) (Suc i + k) (docs ! k)) [0..<length docs]"
    by (simp add: upt_conv_Cons map_Suc_upt [symmetric] comp_def del: upt_Suc)
  with p have p': "ps = pts @ map (\<lambda>k. seed_point ((v # vs) ! k) (i + k) ((doc # docs) ! k))
                               [0..<length (doc # docs)]"
    by simp
  from l e' p' show ?case
    by (intro exI [of _ "v # vs"]) simp
qed

lemma upsert_points_snoc:
  "upsert_points d m (ps @ [p])
     = (upsert_points d m ps)(point_id p \<mapsto> p\<lparr>point_vector := stored_vector d (point_vector p)\<rparr>)"
  by (induction ps arbitrary: m) auto

lemma upsert_points_seed:
  "upsert_points d m (map (\<lambda>k. seed_point (vec k) k (docs ! k)) [0..<n]) i
     = (if i < n then Some (seed_point (stored_vector d (vec i)) i (docs ! i)) else m i)"
proof (induction n)
  case 0
  show ?case by simp
next
  case (Suc n)
  then show ?case
    by (auto simp: upsert_points_snoc seed_point_def)
qed

lemma length_SEED_DOCUMENTS: "length SEED_DOCUMENTS = 6"
  by (simp add: SEED_DOCUMENTS_def)

lemma seed_collection_steps:
  "seed_collection emb client =
     (case embed_documents emb 0 [] SEED_DOCUMENTS of
        Inl e \<Rightarrow> Inl e
      | Inr ps \<Rightarrow>
          if list_all (\<lambda>p. length (point_vector p) = EMBEDDING_DIM) ps
          then Inr (client(COLLECTION_NAME \<mapsto>
                 \<lparr>vectors_config = \<lparr>vp_size = EMBEDDING_DIM, vp_distance = COSINE\<rparr>,
                  points = upsert_points COSINE Map.empty ps\<rparr>))
          else Inl WrongVectorSize)"
proof -
  let ?cfg = "\<lparr>vp_size = EMBEDDING_DIM, vp_distance = COSINE\<rparr>"
  let ?client1 = "if collection_exists client COLLECTION_NAME
                  then delete_collection client COLLECTION_NAME else client"
  have free: "?client1 COLLECTION_NAME = None"
    by (simp add: collection_exists_def delete_collection_def)
  have same: "?client1(COLLECTION_NAME \<mapsto> c) = client(COLLECTION_NAME \<mapsto> c)" for c
    by (simp add: collection_exists_def delete_collection_def)
  from free have cr: "create_collection ?client1 COLLECTION_NAME ?cfg
      = Inr (client(COLLECTION_NAME \<mapsto> \<lparr>vectors_config = ?cfg, points = Map.empty\<rparr>))"
    by (simp only: create_collection_def same) simp
  show ?thesis
    unfolding seed_collection_def Let_def cr
    by (simp add: upsert_def split: sum.splits)
qed

lemma sqrt_25: "sqrt 25 = 5"
  by (rule real_sqrt_unique) simp_all

lemma cosine_preprocess_example:
  "cosine_preprocess (3 # 4 # replicate 1534 0) = (3 / 5) # (4 / 5) # replicate 1534 0"
proof -
  have "sum_list (map (\<lambda>x. x * x) (3 # 4 # replicate 1534 (0::real))) = 25"
    by (simp add: sum_list_replicate)
  then show ?thesis
    unfolding cosine_preprocess_def Let_def by (simp add: sqrt_25)
qed

text \<open>
  Claim C9. Seeding is a full refresh. When the embedding provider answers for every
  document of the corpus with a vector of \<^verbatim>\<open>EMBEDDING_DIM\<close> components, then,
  whatever the store held, \<^verbatim>\<open>seed_collection\<close> succeeds and leaves under the
  collection name a collection of size \<^verbatim>\<open>EMBEDDING_DIM\<close> = 1536 with cosine distance
  whose points are exactly one per document of the corpus of six: the point with the
  integer identifier \<open>i\<close> holds the embedding of the text of document \<open>i\<close>, as the
  store keeps it under cosine distance, and the payload with that document's id,
  title, section and text. Nothing of an earlier collection of the name remains, and
  other collections are untouched. The seeding succeeds only with such a provider.
\<close>

theorem seed_collection_full_refresh:
  "((\<forall>i < length SEED_DOCUMENTS.
        get_embedding (sd_text (SEED_DOCUMENTS ! i)) = Inr (vec i)
        \<and> length (vec i) = EMBEDDING_DIM) \<longrightarrow>
      (\<exists>pts. seed_collection get_embedding client
                = Inr (client(COLLECTION_NAME \<mapsto>
                         \<lparr>vectors_config = \<lparr>vp_size = EMBEDDING_DIM, vp_distance = COSINE\<rparr>,
                          points = pts\<rparr>))
           \<and> (\<forall>i. pts i =
                 (if i < length SEED_DOCUMENTS
                  then Some \<lparr>point_id = i,
                             point_vector = cosine_preprocess (vec i),
                             point_payload =
                               \<lparr>p_document_id = sd_document_id (SEED_DOCUMENTS ! i),
                                p_title = sd_title (SEED_DOCUMENTS ! i),
                                p_section = sd_section (SEED_DOCUMENTS ! i),
                                p_text = sd_text (SEED_DOCUMENTS ! i)\<rparr>\<rparr>
                  else None))))
   \<and> ((\<exists>st. seed_collection get_embedding client = Inr st) \<longleftrightarrow>
        (\<forall>d \<in> set SEED_DOCUMENTS.
           \<exists>v. get_embedding (sd_text d) = Inr v \<and> length v = EMBEDDING_DIM))
   \<and> length SEED_DOCUMENTS = 6 \<and> EMBEDDING_DIM = 1536"
proof -
  let ?n = "length SEED_DOCUMENTS"
  let ?cfg = "\<lparr>vp_size = EMBEDDING_DIM, vp_distance = COSINE\<rparr>"
  have A: "\<exists>pts. seed_collection get_embedding client
                = Inr (client(COLLECTION_NAME \<mapsto> \<lparr>vectors_config = ?cfg, points = pts\<rparr>))
           \<and> (\<forall>i. pts i =
                 (if i < ?n
                  then Some \<lparr>point_id = i,
                             point_vector = cosine_preprocess (w i),
                             point_payload =
                               \<lparr>p_document_id = sd_document_id (SEED_DOCUMENTS ! i),
                                p_title = sd_title (SEED_DOCUMENTS ! i),
                                p_section = sd_section (SEED_DOCUMENTS ! i),
                                p_text = sd_text (SEED_DOCUMENTS ! i)\<rparr>\<rparr>
                  else None))"
    if h: "\<forall>i < ?n. get_embedding (sd_text (SEED_DOCUMENTS ! i)) = Inr (w i)
                   \<and> length (w i) = EMBEDDING_DIM" for w
  proof -
    let ?ps = "map (\<lambda>k. seed_point (w k) k (SEED_DOCUMENTS ! k)) [0..<?n]"
    from h have "\<forall>k < ?n. get_embedding (sd_text (SEED_DOCUMENTS ! k)) = Inr (w (0 + k))"
      by simp
    from embed_documents_ok [OF this, of "[]"]
    have e: "embed_documents get_embedding 0 [] SEED_DOCUMENTS = Inr ?ps"
      by simp
    from h have l: "list_all (\<lambda>p. length (point_vector p) = EMBEDDING_DIM) ?ps"
      by (simp add: list_all_iff seed_point_def)
    have s: "seed_collection get_embedding client
        = Inr (client(COLLECTION_NAME \<mapsto>
                 \<lparr>vectors_config = ?cfg, points = upsert_points COSINE Map.empty ?ps\<rparr>))"
      unfolding seed_collection_steps e using l by simp
    have p: "upsert_points COSINE Map.empty ?ps i =
                 (if i < ?n
                  then Some \<lparr>point_id = i,
                             point_vector = cosine_preprocess (w i),
                             point_payload =
                               \<lparr>p_document_id = sd_document_id (SEED_DOCUMENTS ! i),
                                p_title = sd_title (SEED_DOCUMENTS ! i),
                                p_section = sd_section (SEED_DOCUMENTS ! i),
                                p_text = sd_text (SEED_DOCUMENTS ! i)\<rparr>\<rparr>
                  else None)" for i
      using upsert_points_seed [of COSINE Map.empty w SEED_DOCUMENTS ?n i]
      by (simp add: seed_point_def stored_vector_def)
    from s p show ?thesis by blast
  qed
  have B1: "\<forall>d \<in> set SEED_DOCUMENTS.
           \<exists>v. get_embedding (sd_text d) = Inr v \<and> length v = EMBEDDING_DIM"
    if "\<exists>st. seed_collection get_embedding client = Inr st"
  proof -
    from that obtain st where st: "seed_collection get_embedding client = Inr st" ..
    then obtain ps where e: "embed_documents get_embedding 0 [] SEED_DOCUMENTS = Inr ps"
      and l: "list_all (\<lambda>p. length (point_vector p) = EMBEDDING_DIM) ps"
      unfolding seed_collection_steps
      by (cases "embed_documents get_embedding 0 [] SEED_DOCUMENTS") (auto split: if_splits)
    from embed_documents_Inr [OF e] obtain vs where
      lv: "length vs = ?n" and
      ev: "\<forall>k < ?n. get_embedding (sd_text (SEED_DOCUMENTS ! k)) = Inr (vs ! k)" and
      ps: "ps = map (\<lambda>k. seed_point (vs ! k) k (SEED_DOCUMENTS ! k)) [0..<?n]"
      by auto
    from l ps have lk: "\<forall>k < ?n. length (vs ! k) = EMBEDDING_DIM"
      by (simp add: list_all_iff seed_point_def)
    show ?thesis
    proof
      fix d assume "d \<in> set SEED_DOCUMENTS"
      then obtain k where "k < ?n" and "d = SEED_DOCUMENTS ! k"
        by (auto simp: in_set_conv_nth)
      with ev lk show "\<exists>v. get_embedding (sd_text d) = Inr v \<and> length v = EMBEDDING_DIM"
        by auto
    qed
  qed
  have B2: "\<exists>st. seed_collection get_embedding client = Inr st"
    if h: "\<forall>d \<in> set SEED_DOCUMENTS.
           \<exists>v. get_embedding (sd_text d) = Inr v \<and> length v = EMBEDDING_DIM"
  proof -
    let ?w = "\<lambda>i. projr (get_embedding (sd_text (SEED_DOCUMENTS ! i)))"
    have "\<forall>i < ?n. get_embedding (sd_text (SEED_DOCUMENTS ! i)) = Inr (?w i)
                   \<and> length (?w i) = EMBEDDING_DIM"
    proof (intro allI impI)
      fix i assume "i < ?n"
      then have "SEED_DOCUMENTS ! i \<in> set SEED_DOCUMENTS" by simp
      with h obtain v where "get_embedding (sd_text (SEED_DOCUMENTS ! i)) = Inr v"
        and "length v = EMBEDDING_DIM" by blast
      then show "get_embedding (sd_text (SEED_DOCUMENTS ! i)) = Inr (?w i)
                   \<and> length (?w i) = EMBEDDING_DIM" by simp
    qed
    from A [OF this] show ?thesis by blast
  qed
  have "EMBEDDING_DIM = 1536" by (simp add: EMBEDDING_DIM_def)
  with A [of vec] B1 B2 length_SEED_DOCUMENTS show ?thesis by blast
qed

theorem seed_collection_full_refresh_witness:
  "\<exists>st c. seed_collection example_embedding stale_client = Inr st
      \<and> st ''legal_documents'' = Some c
      \<and> vectors_config c = \<lparr>vp_size = 1536, vp_distance = COSINE\<rparr>
      \<and> points c 7 = None
      \<and> map_option point_id (points c 3) = Some 3
      \<and> map_option (p_document_id \<circ> point_payload) (points c 3) = Some ''bger-4a-123-2024''
      \<and> map_option point_vector (points c 3) = Some ((3 / 5) # (4 / 5) # replicate 1534 0)
      \<and> st ''other'' = stale_client ''other''"
proof -
  let ?vec = "\<lambda>i::nat. (3::real) # 4 # replicate 1534 0"
  have h: "\<forall>i < length SEED_DOCUMENTS.
        example_embedding (sd_text (SEED_DOCUMENTS ! i)) = Inr (?vec i)
        \<and> length (?vec i) = EMBEDDING_DIM"
    by (simp add: example_embedding_def EMBEDDING_DIM_def)
  from seed_collection_full_refresh [of example_embedding ?vec stale_client] h
  obtain pts where
    s: "seed_collection example_embedding stale_client
          = Inr (stale_client(COLLECTION_NAME \<mapsto>
                    \<lparr>vectors_config = \<lparr>vp_size = EMBEDDING_DIM, vp_distance = COSINE\<rparr>,
                     points = pts\<rparr>))" and
    p: "\<And>i. pts i =
               (if i < length SEED_DOCUMENTS
                then Some \<lparr>point_id = i,
                           point_vector = cosine_preprocess (?vec i),
                           point_payload =
                             \<lparr>p_document_id = sd_document_id (SEED_DOCUMENTS ! i),
                              p_title = sd_title (SEED_DOCUMENTS ! i),
                              p_section = sd_section (SEED_DOCUMENTS ! i),
                              p_text = sd_text (SEED_DOCUMENTS ! i)\<rparr>\<rparr>
                else None)"
    by blast
  have n: "length SEED_DOCUMENTS = 6" and d: "EMBEDDING_DIM = 1536"
    using seed_collection_full_refresh [of example_embedding ?vec stale_client] by blast+
  let ?c = "\<lparr>vectors_config = \<lparr>vp_size = EMBEDDING_DIM, vp_distance = COSINE\<rparr>, points = pts\<rparr>"
  let ?st = "stale_client(COLLECTION_NAME \<mapsto> ?c)"
  have a: "?st ''legal_documents'' = Some ?c"
    by (simp add: COLLECTION_NAME_def)
  have b: "vectors_config ?c = \<lparr>vp_size = 1536, vp_distance = COSINE\<rparr>"
    by (simp add: d)
  have p7: "points ?c 7 = None"
    by (simp add: p n)
  have d3: "SEED_DOCUMENTS ! 3 = seed_bger_4a_123_2024"
    by (simp add: SEED_DOCUMENTS_def)
  have p3: "pts 3 = Some \<lparr>point_id = 3,
        point_vector = (3 / 5) # (4 / 5) # replicate 1534 0,
        point_payload =
          \<lparr>p_document_id = sd_document_id seed_bger_4a_123_2024,
           p_title = sd_title seed_bger_4a_123_2024,
           p_section = sd_section seed_bger_4a_123_2024,
           p_text = sd_text seed_bger_4a_123_2024\<rparr>\<rparr>"
    by (simp add: p n d3 cosine_preprocess_example)
  have i3: "map_option point_id (points ?c 3) = Some 3"
    by (simp add: p3)
  have e3: "map_option (p_document_id \<circ> point_payload) (points ?c 3) = Some ''bger-4a-123-2024''"
    by (simp add: p3 seed_bger_4a_123_2024_def)
  have v3: "map_option point_vector (points ?c 3) = Some ((3 / 5) # (4 / 5) # replicate 1534 0)"
    by (simp add: p3)
  have o: "?st ''other'' = stale_client ''other''"
    by (simp add: COLLECTION_NAME_def)
  from s a b p7 i3 e3 v3 o show ?thesis
    by blast
qed

section \<open>The primary keys are kept\<close>

text \<open>
  The databases that \<^verbatim>\<open>post_query\<close> reaches from the initial one respect the
  primary keys, whatever the agent, the identifiers and the clock are.
\<close>

lemma primary_keys_ok_init_db: "primary_keys_ok init_db"
  by (simp add: primary_keys_ok_def init_db_def)

lemma ensure_session_primary_keys:
  "primary_keys_ok db \<Longrightarrow> ensure_session db sid now = Inr db1 \<Longrightarrow> primary_keys_ok db1"
  by (cases "sid \<in> set (map s_session_id (sessions db))")
     (auto simp: ensure_session_present ensure_session_absent primary_keys_ok_def)

lemma insert_query_primary_keys:
  "primary_keys_ok db \<Longrightarrow> insert_query db row = Inr db' \<Longrightarrow> primary_keys_ok db'"
  by (auto simp: insert_query_def primary_keys_ok_def split: if_splits)

lemma post_query_primary_keys:
  assumes "primary_keys_ok db"
  shows "primary_keys_ok (fst (post_query run u qid now req db))"
proof -
  let ?sid = "resolve_session_id (req_session_id req) u"
  obtain db1 where e: "ensure_session db ?sid now = Inr db1"
    using ensure_session_total by blast
  with assms have k1: "primary_keys_ok db1"
    by (rule ensure_session_primary_keys)
  let ?deps = "\<lparr>deps_session_id = ?sid, deps_user_query = req_query req\<rparr>"
  show ?thesis
  proof (cases "run (req_query req) ?deps (load_last_history db1 ?sid)")
    case (Inl err)
    with e k1 show ?thesis
      by (simp add: post_query_def prepare_query_def Let_def)
  next
    case (Inr result)
    let ?row = "\<lparr>q_query_id = qid, q_session_id = ?sid,
        q_user_query = req_query req, q_result_json = run_output result,
        q_messages_json = run_new_messages_json result, q_created_at = now\<rparr>"
    show ?thesis
    proof (cases "insert_query db1 ?row")
      case (Inl err)
      with e k1 Inr show ?thesis
        by (simp add: post_query_def prepare_query_def Let_def)
    next
      case (Inr db2)
      with k1 have "primary_keys_ok db2"
        by (rule insert_query_primary_keys)
      with e \<open>run (req_query req) ?deps (load_last_history db1 ?sid) = Inr result\<close> Inr
      show ?thesis
        by (simp add: post_query_def prepare_query_def Let_def)
    qed
  qed
qed

section \<open>Further checks of the models\<close>

text \<open>Sessions with equal creation time are listed by identifier.\<close>

lemma list_sessions_ties:
  "map ls_session_id (list_sessions db_ties) = [''a'', ''b'', ''c'']"
  by (simp add: list_sessions_def left_join_def order_by_desc_def Let_def db_ties_def)

text \<open>
  The seeding fails when the provider fails, and when it returns vectors that have
  not the size of the collection.
\<close>

lemma seed_collection_provider_fails:
  "seed_collection (\<lambda>t. Inl EmbeddingFailed) client = Inl EmbeddingFailed"
  by (simp add: seed_collection_steps SEED_DOCUMENTS_def)

lemma seed_collection_wrong_size:
  "seed_collection (\<lambda>t. Inr [1, 2, 3]) client = Inl WrongVectorSize"
proof -
  let ?ps = "map (\<lambda>k. seed_point [1, 2, 3] (0 + k) (SEED_DOCUMENTS ! k)) [0..<length SEED_DOCUMENTS]"
  have e: "embed_documents (\<lambda>t. Inr [1, 2, 3]) 0 [] SEED_DOCUMENTS = Inr ?ps"
    using embed_documents_ok [of SEED_DOCUMENTS "\<lambda>t. Inr [1, 2, 3]" "\<lambda>i. [1, 2, 3]" 0 "[]"]
    by simp
  have "\<not> list_all (\<lambda>p. length (point_vector p) = EMBEDDING_DIM) ?ps"
    by (auto simp: list_all_iff seed_point_def EMBEDDING_DIM_def length_SEED_DOCUMENTS
        intro: exI [of _ 0])
  then show ?thesis
    unfolding seed_collection_steps e by simp
qed

end
